theory Spec2Isabelle
  imports Complex_Main "HOL-Library.AList" "HOL-Library.Log_Nat"
begin

section \<open>Conventions of the embedding\<close>

text \<open>
  The engine is TypeScript. The belief system compares the numbers it computes for
  equality and against a threshold, where one rounding decides the outcome, so its
  arithmetic is modelled as the code runs it: its numbers are IEEE 754 doubles and each
  operation rounds (next section). In the other modules a JavaScript \<open>number\<close> that
  carries a magnitude (trust, pressure, weight) is a \<^typ>\<open>real\<close>: rounding is not modelled
  there, and neither are \<open>NaN\<close> and the infinities, except where the code itself writes
  \<open>-Infinity\<close>. A \<open>number\<close> that counts turns, years, interactions or a time-to-live is
  an \<^typ>\<open>int\<close>.
  An optional field is an \<open>option\<close>. A \<open>Map\<close> and a plain object used as a dictionary are
  association lists in iteration order: \<open>Map.get\<close> is \<^const>\<open>map_of\<close>, and \<open>Map.set\<close> is
  \<^const>\<open>AList.update\<close>, which overwrites an existing key in place and appends a new key at
  the end, as JavaScript does for a \<open>Map\<close> and for the non-numeric keys of an object. A
  JavaScript dictionary never holds a key twice; theorems that depend on it say so with
  \<^const>\<open>distinct\<close> on the keys, and the operations that build these dictionaries are shown
  to keep it. A field whose name is taken in Isabelle carries the name of its record as a
  suffix (\<open>id_log\<close>, \<open>type_action\<close>).
\<close>

section \<open>JavaScript numbers in the belief system (IEEE 754 binary64)\<close>

text \<open>
  A JavaScript \<open>number\<close> is a binary64 value: a finite double, one of the two infinities,
  or \<open>NaN\<close>. \<open>Num x\<close> is the finite double whose value is the real \<open>x\<close>. The two zeros
  are the one value \<open>Num 0\<close>: \<open>===\<close> and \<open><\<close> do not tell them apart, and the belief
  system never divides by a zero, its one division being behind the test
  \<open>evidence === 0\<close>.
\<close>

datatype number = Num real | PosInfinity | NegInfinity | NaN

text \<open>The nearest integer, a tie going to the even one.\<close>

definition roundHalfEven :: "real \<Rightarrow> int" where
  "roundHalfEven y =
     (let f = \<lfloor>y\<rfloor>; d = y - of_int f
      in if d < 1 / 2 then f else if d > 1 / 2 then f + 1 else if even f then f else f + 1)"

text \<open>
  Rounding of a real to the nearest value of a binary format with \<open>p\<close> significant bits,
  least subnormal \<open>2 powi (- c)\<close> and finite values below \<open>2 ^ emax\<close>, ties to even.
  \<open>q\<close> is the distance between neighbouring values of the format at the magnitude of
  \<open>x\<close>: when \<open>2 powi e \<le> \<bar>x\<bar> < 2 powi (e + 1)\<close> the integer \<open>n\<close> has \<open>e + c + 1\<close>
  bits and \<open>q = 2 powi (e + 1 - p)\<close>, and below the least normal value \<open>q = 2 powi (- c)\<close>.
  A result that reaches \<open>2 ^ emax\<close> is an infinity.
\<close>

definition roundBinary :: "nat \<Rightarrow> nat \<Rightarrow> nat \<Rightarrow> real \<Rightarrow> number" where
  "roundBinary p c emax x =
     (let a = \<bar>x\<bar>;
          n = \<lfloor>a * 2 ^ c\<rfloor>;
          q = 2 powi (max (bitlen n - int p) 0 - int c);
          r = of_int (roundHalfEven (a / q)) * q
      in if r \<ge> 2 ^ emax then (if x < 0 then NegInfinity else PosInfinity)
         else Num (if x < 0 then - r else r))"

text \<open>
  Binary64 has 53 significant bits, least subnormal \<open>2 powi (- 1074)\<close> and finite values
  below \<open>2 ^ 1024\<close>. A decimal literal of the source denotes the double nearest to it:
  the literal \<open>0.3\<close> is \<open>round64 0.3\<close>.
\<close>

definition round64 :: "real \<Rightarrow> number" where
  "round64 x = roundBinary 53 1074 1024 x"

fun is_zero :: "number \<Rightarrow> bool" where
  "is_zero (Num x) = (x = 0)"
| "is_zero _ = False"

fun is_negative :: "number \<Rightarrow> bool" where
  "is_negative (Num x) = (x < 0)"
| "is_negative NegInfinity = True"
| "is_negative _ = False"

fun is_infinite :: "number \<Rightarrow> bool" where
  "is_infinite PosInfinity = True"
| "is_infinite NegInfinity = True"
| "is_infinite _ = False"

definition signed_infinity :: "bool \<Rightarrow> number" where
  "signed_infinity negative = (if negative then NegInfinity else PosInfinity)"

text \<open>
  The operators \<open>+\<close>, \<open>-\<close>, \<open>*\<close> and \<open>/\<close> on numbers: on finite operands the exact
  result, rounded; otherwise the result that IEEE 754 gives (\<open>NaN\<close> from a \<open>NaN\<close>
  operand, from \<open>Infinity - Infinity\<close>, \<open>0 * Infinity\<close>, \<open>0 / 0\<close> and
  \<open>Infinity / Infinity\<close>). A finite zero divisor is taken to be the positive zero.
\<close>

fun js_neg :: "number \<Rightarrow> number" where
  "js_neg (Num x) = Num (- x)"
| "js_neg PosInfinity = NegInfinity"
| "js_neg NegInfinity = PosInfinity"
| "js_neg NaN = NaN"

fun js_add :: "number \<Rightarrow> number \<Rightarrow> number" where
  "js_add (Num x) (Num y) = round64 (x + y)"
| "js_add a b =
     (if a = NaN \<or> b = NaN then NaN
      else if is_infinite a \<and> is_infinite b then (if a = b then a else NaN)
      else if is_infinite a then a else b)"

definition js_sub :: "number \<Rightarrow> number \<Rightarrow> number" where
  "js_sub a b = js_add a (js_neg b)"

fun js_mul :: "number \<Rightarrow> number \<Rightarrow> number" where
  "js_mul (Num x) (Num y) = round64 (x * y)"
| "js_mul a b =
     (if a = NaN \<or> b = NaN \<or> is_zero a \<or> is_zero b then NaN
      else signed_infinity (is_negative a \<noteq> is_negative b))"

fun js_div :: "number \<Rightarrow> number \<Rightarrow> number" where
  "js_div (Num x) (Num y) =
     (if y = 0 then (if x = 0 then NaN else signed_infinity (x < 0))
      else round64 (x / y))"
| "js_div a b =
     (if a = NaN \<or> b = NaN \<or> (is_infinite a \<and> is_infinite b) then NaN
      else if is_infinite a then signed_infinity (is_negative a \<noteq> is_negative b)
      else Num 0)"

text \<open>The comparisons \<open><\<close> and \<open>>=\<close>; both are false when an operand is \<open>NaN\<close>.\<close>

fun js_lt :: "number \<Rightarrow> number \<Rightarrow> bool" where
  "js_lt (Num x) (Num y) = (x < y)"
| "js_lt a b =
     (a \<noteq> NaN \<and> b \<noteq> NaN \<and> a \<noteq> b \<and> (a = NegInfinity \<or> b = PosInfinity))"

definition js_ge :: "number \<Rightarrow> number \<Rightarrow> bool" where
  "js_ge a b = (a \<noteq> NaN \<and> b \<noteq> NaN \<and> \<not> js_lt a b)"

text \<open>\<open>Math.max\<close> and \<open>Math.min\<close> of two numbers; \<open>NaN\<close> if either is \<open>NaN\<close>.\<close>

definition Math_max :: "number \<Rightarrow> number \<Rightarrow> number" where
  "Math_max a b = (if a = NaN \<or> b = NaN then NaN else if js_lt a b then b else a)"

definition Math_min :: "number \<Rightarrow> number \<Rightarrow> number" where
  "Math_min a b = (if a = NaN \<or> b = NaN then NaN else if js_lt b a then b else a)"

section \<open>Belief system (src/modules/beliefSystem.ts)\<close>

record Belief =
  proposition_belief :: string
  confidence :: number
  lastUpdatedTurn :: int
  sources :: "string list"

record BeliefState =
  characterId :: string
  beliefs :: "(string \<times> Belief) list"

record ObservationContext =
  observerId :: string
  observerLocation :: string
  attentionLevel :: number
  intelligence :: number

record WorldEvent =
  id_event :: string
  type_event :: string
  actorId_event :: string
  targetId_event :: "string option"
  location :: string
  turn_event :: int
  visibility :: number

record PropositionImpact =
  proposition_impact :: string
  likelihoodIfTrue :: number
  likelihoodIfFalse :: number

text \<open>The module's \<open>clamp\<close>: \<open>Math.max(min, Math.min(max, value))\<close>.\<close>

definition clamp_belief :: "number \<Rightarrow> number \<Rightarrow> number \<Rightarrow> number" where
  "clamp_belief value mn mx = Math_max mn (Math_min mx value)"

text \<open>
  \<open>event.visibility * distanceFactor * context.attentionLevel\<close> multiplies from the
  left, and each product is rounded.
\<close>

definition calculateObservability :: "WorldEvent \<Rightarrow> ObservationContext \<Rightarrow> number" where
  "calculateObservability event context =
     (let distanceFactor =
            (if location event = observerLocation context then Num 1.0 else round64 0.3);
          observability =
            js_mul (js_mul (visibility event) distanceFactor) (attentionLevel context)
      in clamp_belief observability (Num 0) (Num 1))"

text \<open>The third parameter of \<open>isEventObserved\<close> defaults to 0.5 in the source.\<close>

definition isEventObserved :: "WorldEvent \<Rightarrow> ObservationContext \<Rightarrow> number \<Rightarrow> bool" where
  "isEventObserved event context threshold =
     (let observability = calculateObservability event context
      in js_ge observability threshold)"

definition bayesianUpdate :: "number \<Rightarrow> number \<Rightarrow> number \<Rightarrow> number" where
  "bayesianUpdate prior likelihoodTrue likelihoodFalse =
     (let evidence = js_add (js_mul likelihoodTrue prior)
                            (js_mul likelihoodFalse (js_sub (Num 1) prior))
      in if evidence = Num 0 then prior
         else (let posterior = js_div (js_mul likelihoodTrue prior) evidence
               in clamp_belief posterior (Num 0) (Num 1)))"

definition adjustForIntelligence :: "number \<Rightarrow> number \<Rightarrow> number" where
  "adjustForIntelligence likelihood intel =
     js_add (Num 0.5) (js_mul (js_sub likelihood (Num 0.5)) intel)"

text \<open>One pass of the loop over \<open>impacts\<close> in \<open>updateBeliefFromEvent\<close>.\<close>

definition updateBeliefStep ::
  "WorldEvent \<Rightarrow> ObservationContext \<Rightarrow> PropositionImpact \<Rightarrow>
   (string \<times> Belief) list \<Rightarrow> (string \<times> Belief) list" where
  "updateBeliefStep event context impact newBeliefs =
     (let existing = map_of newBeliefs (proposition_impact impact);
          prior = (case existing of None \<Rightarrow> Num 0.5 | Some b \<Rightarrow> confidence b);
          adjustedLikelihoodTrue =
            adjustForIntelligence (likelihoodIfTrue impact) (intelligence context);
          adjustedLikelihoodFalse =
            adjustForIntelligence (likelihoodIfFalse impact) (intelligence context);
          posterior = bayesianUpdate prior adjustedLikelihoodTrue adjustedLikelihoodFalse
      in AList.update (proposition_impact impact)
           \<lparr> proposition_belief = proposition_impact impact,
             confidence = posterior,
             lastUpdatedTurn = turn_event event,
             sources = (case existing of None \<Rightarrow> [] | Some b \<Rightarrow> sources b) @ [id_event event] \<rparr>
           newBeliefs)"

definition updateBeliefFromEvent ::
  "BeliefState \<Rightarrow> WorldEvent \<Rightarrow> ObservationContext \<Rightarrow> PropositionImpact list \<Rightarrow> BeliefState" where
  "updateBeliefFromEvent state event context impacts =
     (if \<not> isEventObserved event context (Num 0.5) then state
      else state\<lparr> beliefs := fold (updateBeliefStep event context) impacts (beliefs state) \<rparr>)"

section \<open>Shared data model (src/core/types.ts)\<close>

datatype ActionType = MOVE | SPEAK | WAIT | ATTACK

datatype ActionTag = RISKY | SAFE | SOCIAL | AGGRESSIVE | PASSIVE | NEUTRAL

record Action =
  actorId :: string
  targetId :: "string option"
  type_action :: ActionType
  tags :: "ActionTag list"

text \<open>\<open>interface ActionLog extends Action\<close>: the log has every field of an action.\<close>

record ActionLog = Action +
  id_log :: string
  timestamp :: int

datatype MeaningType = FEAR | TRUST | RESPECT

text \<open>
  At run time a meaning type is the string that names it; the pressure object and the
  last-chronicle object are keyed by these strings, and the loops over \<open>Object.entries\<close>
  see plain string keys.
\<close>

fun meaningKey :: "MeaningType \<Rightarrow> string" where
  "meaningKey FEAR = ''FEAR''"
| "meaningKey TRUST = ''TRUST''"
| "meaningKey RESPECT = ''RESPECT''"

record Audience =
  factionIds :: "string list option"
  locationIds :: "string list option"

record MeaningEvent =
  id_meaning :: string
  sourceLogIds :: "string list"
  type_meaning :: MeaningType
  intensity :: real
  audience :: Audience

datatype Tone = positive | negative | ambiguous

record EchoScope =
  factionId :: "string option"
  locationId :: "string option"

record Echo =
  id_echo :: string
  originMeaningId :: string
  tone :: Tone
  distortion :: real
  ttl :: int
  scope_echo :: EchoScope

datatype ChronicleScope = LOCAL | REGIONAL | GLOBAL

record ChronicleEntry =
  id_chronicle :: string
  year_chronicle :: int
  summary :: string
  derivedMeaningIds :: "string list"
  scope_chronicle :: ChronicleScope

record WorldState =
  year :: int
  turn :: int
  logs :: "ActionLog list"
  meanings :: "MeaningEvent list"
  echoes :: "Echo list"
  chronicles :: "ChronicleEntry list"

section \<open>Ambient sources\<close>

text \<open>
  The engine calls \<open>crypto.randomUUID()\<close>, \<open>Date.now()\<close> and \<open>Math.random()\<close>. Their
  answers are inputs of the model: an \<open>Ambient\<close> gives the answer of the \<open>n\<close>-th ambient
  call, and every function that makes such calls takes the number of calls made so far and
  returns it advanced.
\<close>

record Ambient =
  randomUUID :: "nat \<Rightarrow> string"
  dateNow :: "nat \<Rightarrow> int"
  mathRandom :: "nat \<Rightarrow> real"

text \<open>\<open>Array.prototype.map\<close> with a callback that makes ambient calls, left to right.\<close>

fun mapAmbient :: "(nat \<Rightarrow> 'a \<Rightarrow> 'b \<times> nat) \<Rightarrow> nat \<Rightarrow> 'a list \<Rightarrow> 'b list \<times> nat" where
  "mapAmbient f n [] = ([], n)"
| "mapAmbient f n (x # xs) =
     (case f n x of (y, n1) \<Rightarrow>
        (case mapAmbient f n1 xs of (ys, n2) \<Rightarrow> (y # ys, n2)))"

section \<open>Strings\<close>

text \<open>
  \<open>String.prototype.toLowerCase\<close> on the ASCII letters, which is all the meaning-type
  names and the chronicle summaries of the engine contain, and
  \<open>String.prototype.includes\<close>.
\<close>

definition lowerChar :: "char \<Rightarrow> char" where
  "lowerChar c =
     (case map_of (zip ''ABCDEFGHIJKLMNOPQRSTUVWXYZ'' ''abcdefghijklmnopqrstuvwxyz'') c of
        None \<Rightarrow> c | Some l \<Rightarrow> l)"

definition toLowerCase :: "string \<Rightarrow> string" where
  "toLowerCase s = map lowerChar s"

fun startsWith :: "string \<Rightarrow> string \<Rightarrow> bool" where
  "startsWith s [] = True"
| "startsWith [] (p # ps) = False"
| "startsWith (c # cs) (p # ps) = (c = p \<and> startsWith cs ps)"

fun includes_string :: "string \<Rightarrow> string \<Rightarrow> bool" where
  "includes_string [] sub = (sub = [])"
| "includes_string (c # cs) sub = (startsWith (c # cs) sub \<or> includes_string cs sub)"

section \<open>Pressure, chronicles and tendency (src/core/chronicle-pressure.ts)\<close>

record WorldTendency =
  tag :: ActionTag
  weight :: real

record ExtendedWorldState = WorldState +
  tendency :: "WorldTendency list"
  meaningPressure :: "(string \<times> real) list"
  lastChronicleTurn :: "(string \<times> int) list"

definition accumulateStep :: "MeaningEvent \<Rightarrow> (string \<times> real) list \<Rightarrow> (string \<times> real) list" where
  "accumulateStep m pressure =
     AList.update (meaningKey (type_meaning m))
       ((case map_of pressure (meaningKey (type_meaning m)) of None \<Rightarrow> 0 | Some p \<Rightarrow> p)
          + intensity m)
       pressure"

definition accumulateMeaningPressure ::
  "ExtendedWorldState \<Rightarrow> MeaningEvent list \<Rightarrow> ExtendedWorldState" where
  "accumulateMeaningPressure world ms =
     world\<lparr> meaningPressure := fold accumulateStep ms (meaningPressure world) \<rparr>"

definition CHRONICLE_THRESHOLD :: real where
  "CHRONICLE_THRESHOLD = 2.0"

definition MIN_CHRONICLE_GAP :: int where
  "MIN_CHRONICLE_GAP = 3"

text \<open>
  The body of the loop of \<open>generateChronicleFromPressure\<close>. The loop runs over the entries
  that \<open>Object.entries(pressure)\<close> listed when it started; \<open>entries\<close>, \<open>pressure\<close> and
  \<open>lastTurn\<close> are the mutable locals. An absent last turn reads as \<open>-Infinity\<close>, which makes
  the gap test true.
\<close>

definition chronicleStep ::
  "Ambient \<Rightarrow> ExtendedWorldState \<Rightarrow> string \<times> real \<Rightarrow>
   ChronicleEntry list \<times> (string \<times> real) list \<times> (string \<times> int) list \<times> nat \<Rightarrow>
   ChronicleEntry list \<times> (string \<times> real) list \<times> (string \<times> int) list \<times> nat" where
  "chronicleStep amb world kv st =
     (case kv of (key, value) \<Rightarrow>
      case st of (entries, pressure, lastTurn, n) \<Rightarrow>
        (let canEmit = (value \<ge> CHRONICLE_THRESHOLD \<and>
                        (case map_of lastTurn key of
                           None \<Rightarrow> True
                         | Some lastT \<Rightarrow> turn world - lastT \<ge> MIN_CHRONICLE_GAP))
         in if canEmit
            then (entries @ [\<lparr> id_chronicle = randomUUID amb n,
                               year_chronicle = year world,
                               summary = ''An era shaped by '' @ toLowerCase key @ ''.'',
                               derivedMeaningIds = [],
                               scope_chronicle = LOCAL \<rparr>],
                  AList.update key (value * 0.4) pressure,
                  AList.update key (turn world) lastTurn,
                  n + 1)
            else st))"

record ChronicleResult =
  world_result :: ExtendedWorldState
  chronicles_result :: "ChronicleEntry list"

definition generateChronicleFromPressure ::
  "Ambient \<Rightarrow> nat \<Rightarrow> ExtendedWorldState \<Rightarrow> ChronicleResult \<times> nat" where
  "generateChronicleFromPressure amb n world =
     (case fold (chronicleStep amb world) (meaningPressure world)
             ([], meaningPressure world, lastChronicleTurn world, n) of
        (entries, pressure, lastTurn, n') \<Rightarrow>
          (\<lparr> world_result = world\<lparr> meaningPressure := pressure, lastChronicleTurn := lastTurn \<rparr>,
             chronicles_result = entries \<rparr>, n'))"

definition TENDENCY_MIN :: real where
  "TENDENCY_MIN = -0.6"

definition TENDENCY_MAX :: real where
  "TENDENCY_MAX = 0.6"

definition mergeTendency :: "WorldTendency \<Rightarrow> (ActionTag \<times> real) list \<Rightarrow> (ActionTag \<times> real) list" where
  "mergeTendency t m =
     AList.update (tag t) ((case map_of m (tag t) of None \<Rightarrow> 0 | Some w \<Rightarrow> w) + weight t) m"

definition adjust :: "ActionTag \<Rightarrow> real \<Rightarrow> (ActionTag \<times> real) list \<Rightarrow> (ActionTag \<times> real) list" where
  "adjust tg delta m =
     (let current = (case map_of m tg of None \<Rightarrow> 0 | Some w \<Rightarrow> w);
          next = max TENDENCY_MIN (min TENDENCY_MAX (current + delta))
      in AList.update tg next m)"

definition tendencyStep :: "ChronicleEntry \<Rightarrow> (ActionTag \<times> real) list \<Rightarrow> (ActionTag \<times> real) list" where
  "tendencyStep c m =
     (let lower = toLowerCase (summary c);
          m1 = (if includes_string lower ''fear''
                then adjust SAFE 0.08 (adjust RISKY (-0.10) m) else m);
          m2 = (if includes_string lower ''trust''
                then adjust PASSIVE (-0.04) (adjust SOCIAL 0.08 m1) else m1);
          m3 = (if includes_string lower ''respect''
                then adjust AGGRESSIVE 0.05 m2 else m2)
      in m3)"

definition applyChronicleTendency ::
  "ExtendedWorldState \<Rightarrow> ChronicleEntry list \<Rightarrow> ExtendedWorldState" where
  "applyChronicleTendency world cs =
     (if length cs = 0 then world
      else (let m = fold mergeTendency (tendency world) [];
                m' = fold tendencyStep cs m
            in world\<lparr> tendency := map (\<lambda>(tg, w). \<lparr> tag = tg, weight = w \<rparr>) m' \<rparr>))"

fun TONE_FACTOR :: "Tone \<Rightarrow> real" where
  "TONE_FACTOR positive = 0.6"
| "TONE_FACTOR negative = 1.0"
| "TONE_FACTOR ambiguous = 0.3"

definition DECAY_SENSITIVITY :: "(string \<times> real) list" where
  "DECAY_SENSITIVITY = [(''FEAR'', 0.8), (''TRUST'', 0.6), (''RESPECT'', 0.5)]"

text \<open>
  The inner loop body of \<open>applyEchoToPressure\<close>: \<open>value\<close> is the entry as
  \<open>Object.entries(pressure)\<close> listed it when the inner loop started for this echo.
\<close>

definition echoEntryStep :: "Echo \<Rightarrow> string \<times> real \<Rightarrow> (string \<times> real) list \<Rightarrow> (string \<times> real) list" where
  "echoEntryStep echo kv pressure =
     (case kv of (key, value) \<Rightarrow>
        (let sensitivity = (case map_of DECAY_SENSITIVITY key of None \<Rightarrow> 0.7 | Some s \<Rightarrow> s);
             gain = value * TONE_FACTOR (tone echo) * sensitivity * 0.1
         in AList.update key (value + gain) pressure))"

definition echoStep :: "Echo \<Rightarrow> (string \<times> real) list \<Rightarrow> (string \<times> real) list" where
  "echoStep echo pressure = fold (echoEntryStep echo) pressure pressure"

definition applyEchoToPressure :: "ExtendedWorldState \<Rightarrow> ExtendedWorldState" where
  "applyEchoToPressure world =
     world\<lparr> meaningPressure := fold echoStep (echoes world) (meaningPressure world) \<rparr>"

section \<open>Meaning plugins (src/core/meaningEngine.ts)\<close>

record MeaningPlugin =
  type_plugin :: MeaningType
  evaluate_plugin :: "Ambient \<Rightarrow> nat \<Rightarrow> ActionLog list \<Rightarrow> MeaningEvent list \<times> nat"

record MeaningEngine =
  plugins :: "MeaningPlugin list"

definition register :: "MeaningEngine \<Rightarrow> MeaningPlugin \<Rightarrow> MeaningEngine" where
  "register engine plugin = engine\<lparr> plugins := plugins engine @ [plugin] \<rparr>"

text \<open>\<open>plugins.flatMap(p => p.evaluate(logs))\<close>, the plugins called in registration order.\<close>

fun evaluatePlugins ::
  "Ambient \<Rightarrow> nat \<Rightarrow> MeaningPlugin list \<Rightarrow> ActionLog list \<Rightarrow> MeaningEvent list \<times> nat" where
  "evaluatePlugins amb n [] ls = ([], n)"
| "evaluatePlugins amb n (p # ps) ls =
     (case evaluate_plugin p amb n ls of (ms, n1) \<Rightarrow>
        (case evaluatePlugins amb n1 ps ls of (rest, n2) \<Rightarrow> (ms @ rest, n2)))"

definition evaluate :: "MeaningEngine \<Rightarrow> Ambient \<Rightarrow> nat \<Rightarrow> ActionLog list \<Rightarrow> MeaningEvent list \<times> nat" where
  "evaluate engine amb n ls = evaluatePlugins amb n (plugins engine) ls"

definition FearPlugin :: MeaningPlugin where
  "FearPlugin =
     \<lparr> type_plugin = FEAR,
       evaluate_plugin = (\<lambda>amb n ls.
         mapAmbient (\<lambda>k l. (\<lparr> id_meaning = randomUUID amb k, sourceLogIds = [id_log l],
                               type_meaning = FEAR, intensity = 0.4,
                               audience = \<lparr> factionIds = None, locationIds = Some [''LOCAL''] \<rparr> \<rparr>,
                             k + 1))
           n (filter (\<lambda>l. RISKY \<in> set (tags l)) ls)) \<rparr>"

definition TrustPlugin :: MeaningPlugin where
  "TrustPlugin =
     \<lparr> type_plugin = TRUST,
       evaluate_plugin = (\<lambda>amb n ls.
         mapAmbient (\<lambda>k l. (\<lparr> id_meaning = randomUUID amb k, sourceLogIds = [id_log l],
                               type_meaning = TRUST, intensity = 0.3,
                               audience = \<lparr> factionIds = Some [''CIVILIANS''], locationIds = None \<rparr> \<rparr>,
                             k + 1))
           n (filter (\<lambda>l. SOCIAL \<in> set (tags l)) ls)) \<rparr>"

definition RespectPlugin :: MeaningPlugin where
  "RespectPlugin =
     \<lparr> type_plugin = RESPECT,
       evaluate_plugin = (\<lambda>amb n ls.
         mapAmbient (\<lambda>k l. (\<lparr> id_meaning = randomUUID amb k, sourceLogIds = [id_log l],
                               type_meaning = RESPECT, intensity = 0.2,
                               audience = \<lparr> factionIds = Some [''WARRIORS''], locationIds = None \<rparr> \<rparr>,
                             k + 1))
           n (filter (\<lambda>l. AGGRESSIVE \<in> set (tags l)) ls)) \<rparr>"

section \<open>Turn orchestrator (src/core/engine.ts)\<close>

record TurnResult =
  world_turn :: ExtendedWorldState
  logs_turn :: "ActionLog list"
  meanings_turn :: "MeaningEvent list"
  chronicles_turn :: "ChronicleEntry list"

text \<open>
  \<open>executeAction\<close> builds the log from the fields it names: \<open>id\<close>, \<open>actorId\<close>, \<open>type\<close>,
  \<open>tags\<close>, \<open>timestamp\<close>. It does not name \<open>targetId\<close>, so the log has none.
\<close>

definition executeAction :: "Ambient \<Rightarrow> nat \<Rightarrow> Action \<Rightarrow> ActionLog \<times> nat" where
  "executeAction amb n action =
     (\<lparr> actorId = actorId action,
        targetId = None,
        type_action = type_action action,
        tags = tags action,
        id_log = randomUUID amb n,
        timestamp = dateNow amb (n + 1) \<rparr>, n + 2)"

definition generateEchoes :: "Ambient \<Rightarrow> nat \<Rightarrow> MeaningEvent list \<Rightarrow> Echo list \<times> nat" where
  "generateEchoes amb n ms =
     mapAmbient (\<lambda>k m. (\<lparr> id_echo = randomUUID amb k,
                           originMeaningId = id_meaning m,
                           tone = (if type_meaning m = FEAR then negative else positive),
                           distortion = mathRandom amb (k + 1),
                           ttl = 3,
                           scope_echo = \<lparr> factionId = None, locationId = Some ''LOCAL'' \<rparr> \<rparr>,
                         k + 2))
       n ms"

definition updateEchoTTL :: "Echo list \<Rightarrow> Echo list" where
  "updateEchoTTL es = filter (\<lambda>e. ttl e > 0) (map (\<lambda>e. e\<lparr> ttl := ttl e - 1 \<rparr>) es)"

definition simulateTurn ::
  "Ambient \<Rightarrow> nat \<Rightarrow> ExtendedWorldState \<Rightarrow> Action list \<Rightarrow> MeaningEngine \<Rightarrow> TurnResult \<times> nat" where
  "simulateTurn amb n world actions meaningEngine =
     (case mapAmbient (executeAction amb) n actions of (ls, n1) \<Rightarrow>
      case evaluate meaningEngine amb n1 ls of (ms, n2) \<Rightarrow>
      case generateChronicleFromPressure amb n2
             (applyEchoToPressure (accumulateMeaningPressure world ms)) of (chronicleResult, n3) \<Rightarrow>
        (let cs = chronicles_result chronicleResult;
             worldAfterChronicle = applyChronicleTendency (world_result chronicleResult) cs
         in case generateEchoes amb n3 ms of (es, n4) \<Rightarrow>
              (let updatedEchoes = updateEchoTTL (echoes worldAfterChronicle @ es);
                   newTurn = turn world + 1;
                   yearIncrement = (if newTurn mod 10 = 0 then 1 else 0);
                   finalWorld = worldAfterChronicle
                     \<lparr> year := year worldAfterChronicle + yearIncrement,
                       turn := newTurn,
                       logs := logs worldAfterChronicle @ ls,
                       meanings := meanings worldAfterChronicle @ ms,
                       chronicles := chronicles worldAfterChronicle @ cs,
                       echoes := updatedEchoes \<rparr>
               in (\<lparr> world_turn = finalWorld, logs_turn = ls, meanings_turn = ms,
                     chronicles_turn = cs \<rparr>, n4))))"

section \<open>Social graph (src/modules/socialGraph.ts)\<close>

record Relationship =
  sourceId :: string
  targetId_rel :: string
  trust :: real
  intimacy :: real
  interactions :: int
  lastInteractionTurn :: int

record CharacterNode =
  id_node :: string
  outgoingRelations :: "string list"
  incomingRelations :: "string list"

record SocialGraphState =
  nodes :: "(string \<times> CharacterNode) list"
  relationships :: "(string \<times> Relationship) list"

definition createRelationshipId :: "string \<Rightarrow> string \<Rightarrow> string" where
  "createRelationshipId source target = source @ ''->'' @ target"

definition createEmptySocialGraph :: SocialGraphState where
  "createEmptySocialGraph = \<lparr> nodes = [], relationships = [] \<rparr>"

definition addCharacterNode :: "SocialGraphState \<Rightarrow> string \<Rightarrow> SocialGraphState" where
  "addCharacterNode graph nodeId =
     (if map_of (nodes graph) nodeId \<noteq> None then graph
      else graph\<lparr> nodes := AList.update nodeId
                      \<lparr> id_node = nodeId, outgoingRelations = [], incomingRelations = [] \<rparr>
                      (nodes graph) \<rparr>)"

definition TRUST_DECAY_RATE :: real where
  "TRUST_DECAY_RATE = 0.02"

definition INTIMACY_DECAY_RATE :: real where
  "INTIMACY_DECAY_RATE = 0.01"

text \<open>The module's own \<open>clamp\<close>: \<open>Math.max(min, Math.min(max, value))\<close>.\<close>

definition clamp :: "real \<Rightarrow> real \<Rightarrow> real \<Rightarrow> real" where
  "clamp value mn mx = max mn (min mx value)"

text \<open>The \<open>delta\<close> argument \<open>{ trust?: number; intimacy?: number }\<close>.\<close>

record RelationshipDelta =
  trust_delta :: "real option"
  intimacy_delta :: "real option"

definition upsertRelationship ::
  "SocialGraphState \<Rightarrow> string \<Rightarrow> string \<Rightarrow> RelationshipDelta \<Rightarrow> int \<Rightarrow> SocialGraphState" where
  "upsertRelationship graph source target delta currentTurn =
     (let relationId = createRelationshipId source target;
          existing = map_of (relationships graph) relationId;
          newRelationship =
            (case existing of
               Some ex \<Rightarrow>
                 ex\<lparr> trust := clamp (trust ex + (case trust_delta delta of None \<Rightarrow> 0 | Some d \<Rightarrow> d)) (-1) 1,
                     intimacy := clamp (intimacy ex
                                   + (case intimacy_delta delta of None \<Rightarrow> 0 | Some d \<Rightarrow> d)) 0 1,
                     interactions := interactions ex + 1,
                     lastInteractionTurn := currentTurn \<rparr>
             | None \<Rightarrow>
                 \<lparr> sourceId = source,
                   targetId_rel = target,
                   trust = clamp (case trust_delta delta of None \<Rightarrow> 0 | Some d \<Rightarrow> d) (-1) 1,
                   intimacy = clamp (case intimacy_delta delta of None \<Rightarrow> 0 | Some d \<Rightarrow> d) 0 1,
                   interactions = 1,
                   lastInteractionTurn = currentTurn \<rparr>);
          newRelationships = AList.update relationId newRelationship (relationships graph);
          newNodes = nodes graph;
          newNodes1 =
            (case map_of newNodes source of
               Some sourceNode \<Rightarrow>
                 if relationId \<notin> set (outgoingRelations sourceNode)
                 then AList.update source
                        (sourceNode\<lparr> outgoingRelations := outgoingRelations sourceNode @ [relationId] \<rparr>)
                        newNodes
                 else newNodes
             | None \<Rightarrow> newNodes);
          newNodes2 =
            (case map_of newNodes1 target of
               Some targetNode \<Rightarrow>
                 if relationId \<notin> set (incomingRelations targetNode)
                 then AList.update target
                        (targetNode\<lparr> incomingRelations := incomingRelations targetNode @ [relationId] \<rparr>)
                        newNodes1
                 else newNodes1
             | None \<Rightarrow> newNodes1)
      in \<lparr> nodes = newNodes2, relationships = newRelationships \<rparr>)"

text \<open>
  The body of the loop of \<open>decayRelationships\<close>, which fills a fresh \<open>Map\<close>.
  \<open>Math.pow\<close> with a whole number of turns is \<open>powi\<close>, an integer power that inverts the
  base for a negative exponent.
\<close>

definition decayStep ::
  "int \<Rightarrow> string \<times> Relationship \<Rightarrow> (string \<times> Relationship) list \<Rightarrow> (string \<times> Relationship) list" where
  "decayStep currentTurn entry newRelationships =
     (case entry of (rid, rel) \<Rightarrow>
        (let turnsSince = currentTurn - lastInteractionTurn rel;
             decayedTrust = trust rel * (1 - TRUST_DECAY_RATE) powi turnsSince;
             decayedIntimacy = intimacy rel * (1 - INTIMACY_DECAY_RATE) powi turnsSince
         in AList.update rid
              (rel\<lparr> trust := clamp decayedTrust (-1) 1, intimacy := clamp decayedIntimacy 0 1 \<rparr>)
              newRelationships))"

definition decayRelationships :: "SocialGraphState \<Rightarrow> int \<Rightarrow> SocialGraphState" where
  "decayRelationships graph currentTurn =
     graph\<lparr> relationships := fold (decayStep currentTurn) (relationships graph) [] \<rparr>"

definition PAGERANK_DAMPING :: real where
  "PAGERANK_DAMPING = 0.85"

definition PAGERANK_ITERATIONS :: nat where
  "PAGERANK_ITERATIONS = 20"

definition PAGERANK_TOLERANCE :: real where
  "PAGERANK_TOLERANCE = 1 / 10 ^ 6"

text \<open>
  Where the real-number model ends. \<open>NonFinite\<close>: a contribution divides by an out-degree
  of zero, which in JavaScript is \<open>Infinity\<close> or \<open>NaN\<close> and not a real number; the model
  stops there instead of letting HOL's \<open>x / 0 = 0\<close> stand in for it. \<open>TypeError\<close>: the
  non-null assertion \<open>graph.nodes.get(nodeId)!\<close> met an absent node.
\<close>

datatype failure = TypeError | NonFinite

text \<open>What one incoming relation adds to \<open>sum\<close> (here \<open>sum_in\<close>), in the innermost loop body.\<close>

definition contribution ::
  "SocialGraphState \<Rightarrow> (string \<times> real) list \<Rightarrow> string \<Rightarrow> failure + real" where
  "contribution graph ranks relId =
     (case map_of (relationships graph) relId of
        None \<Rightarrow> Inr 0
      | Some rel \<Rightarrow>
          (case map_of (nodes graph) (sourceId rel) of
             None \<Rightarrow> Inr 0
           | Some sourceNode \<Rightarrow>
               (let outDegree = length (outgoingRelations sourceNode);
                    sourceRank = (case map_of ranks (sourceId rel) of None \<Rightarrow> 0 | Some r \<Rightarrow> r);
                    weight = 0.5 + 0.5 * ((trust rel + 1) / 2)
                in if outDegree = 0 then Inl NonFinite
                   else Inr (weight * sourceRank / real outDegree))))"

fun incomingSum ::
  "SocialGraphState \<Rightarrow> (string \<times> real) list \<Rightarrow> string list \<Rightarrow> real \<Rightarrow> failure + real" where
  "incomingSum graph ranks [] sum_in = Inr sum_in"
| "incomingSum graph ranks (relId # rest) sum_in =
     (case contribution graph ranks relId of
        Inl e \<Rightarrow> Inl e
      | Inr c \<Rightarrow> incomingSum graph ranks rest (sum_in + c))"

text \<open>
  One pass of the loop over \<open>nodeIds\<close> inside an iteration: the node ids still to visit,
  then the locals \<open>newRanks\<close> and \<open>maxDiff\<close>.
\<close>

fun pageRankRound ::
  "SocialGraphState \<Rightarrow> nat \<Rightarrow> (string \<times> real) list \<Rightarrow> string list \<Rightarrow>
   (string \<times> real) list \<Rightarrow> real \<Rightarrow> failure + ((string \<times> real) list \<times> real)" where
  "pageRankRound graph n ranks [] newRanks maxDiff = Inr (newRanks, maxDiff)"
| "pageRankRound graph n ranks (nodeId # rest) newRanks maxDiff =
     (case map_of (nodes graph) nodeId of
        None \<Rightarrow> Inl TypeError
      | Some node \<Rightarrow>
          (case incomingSum graph ranks (incomingRelations node) 0 of
             Inl e \<Rightarrow> Inl e
           | Inr sum_in \<Rightarrow>
               (let newRank = (1 - PAGERANK_DAMPING) / real n + PAGERANK_DAMPING * sum_in;
                    diff = \<bar>newRank - (case map_of ranks nodeId of None \<Rightarrow> 0 | Some r \<Rightarrow> r)\<bar>
                in pageRankRound graph n ranks rest
                     (AList.update nodeId newRank newRanks)
                     (if diff > maxDiff then diff else maxDiff))))"

definition commitRanks :: "(string \<times> real) list \<Rightarrow> (string \<times> real) list \<Rightarrow> (string \<times> real) list" where
  "commitRanks newRanks ranks = fold (\<lambda>(nid, rank) rs. AList.update nid rank rs) newRanks ranks"

text \<open>
  The \<open>for (iter = 0; iter < PAGERANK_ITERATIONS; iter++)\<close> loop, by the number of
  iterations still allowed; \<open>break\<close> returns the ranks as they stood before this round.
\<close>

fun pageRankLoop ::
  "SocialGraphState \<Rightarrow> string list \<Rightarrow> nat \<Rightarrow> (string \<times> real) list \<Rightarrow>
   failure + (string \<times> real) list" where
  "pageRankLoop graph nodeIds 0 ranks = Inr ranks"
| "pageRankLoop graph nodeIds (Suc remaining) ranks =
     (case pageRankRound graph (length nodeIds) ranks nodeIds [] 0 of
        Inl e \<Rightarrow> Inl e
      | Inr (newRanks, maxDiff) \<Rightarrow>
          if maxDiff < PAGERANK_TOLERANCE then Inr ranks
          else pageRankLoop graph nodeIds remaining (commitRanks newRanks ranks))"

definition initialRanks :: "string list \<Rightarrow> (string \<times> real) list" where
  "initialRanks nodeIds =
     fold (\<lambda>nid rs. AList.update nid (1 / real (length nodeIds)) rs) nodeIds []"

definition calculatePageRank :: "SocialGraphState \<Rightarrow> failure + (string \<times> real) list" where
  "calculatePageRank graph =
     (let nodeIds = map fst (nodes graph);
          n = length nodeIds
      in if n = 0 then Inr []
         else pageRankLoop graph nodeIds PAGERANK_ITERATIONS (initialRanks nodeIds))"

section \<open>Inputs of the repository's drivers\<close>

text \<open>\<open>initialWorld\<close> (src/world/initialState.ts).\<close>

definition initialWorld :: ExtendedWorldState where
  "initialWorld =
     \<lparr> year = 1, turn = 1, logs = [], meanings = [], echoes = [], chronicles = [],
       tendency = [], meaningPressure = [], lastChronicleTurn = [] \<rparr>"

text \<open>\<open>sampleActions()\<close> (src/world/sampleActions.ts).\<close>

definition sampleActions :: "Action list" where
  "sampleActions =
     [\<lparr> actorId = ''npc-1'', targetId = None, type_action = MOVE, tags = [RISKY] \<rparr>,
      \<lparr> actorId = ''npc-2'', targetId = None, type_action = WAIT, tags = [SAFE] \<rparr>]"

text \<open>The engine both drivers build: the three plugins, registered in this order.\<close>

definition defaultEngine :: MeaningEngine where
  "defaultEngine =
     register (register (register \<lparr> plugins = [] \<rparr> FearPlugin) TrustPlugin) RespectPlugin"

section \<open>Sample values\<close>

definition fixedAmbient :: Ambient where
  "fixedAmbient =
     \<lparr> randomUUID = (\<lambda>k. ''00000000-0000-4000-8000-000000000000''),
       dateNow = (\<lambda>k. 1700000000000),
       mathRandom = (\<lambda>k. 0.5) \<rparr>"

definition fearWorld :: ExtendedWorldState where
  "fearWorld =
     initialWorld\<lparr> turn := 5, meaningPressure := [(''FEAR'', 2)],
                   lastChronicleTurn := [(''FEAR'', 1)] \<rparr>"

definition echoWorld :: ExtendedWorldState where
  "echoWorld =
     initialWorld
       \<lparr> echoes := [\<lparr> id_echo = ''e1'', originMeaningId = ''m1'', tone = negative,
                      distortion = 0.5, ttl = 2,
                      scope_echo = \<lparr> factionId = None, locationId = Some ''LOCAL'' \<rparr> \<rparr>],
         meaningPressure := [(''FEAR'', 2), (''HOPE'', 1)] \<rparr>"

definition waryWorld :: ExtendedWorldState where
  "waryWorld = initialWorld\<lparr> tendency := [\<lparr> tag = RISKY, weight = - 0.55 \<rparr>] \<rparr>"

definition fearChronicle :: ChronicleEntry where
  "fearChronicle =
     \<lparr> id_chronicle = ''c1'', year_chronicle = 1, summary = ''An era shaped by fear.'',
       derivedMeaningIds = [], scope_chronicle = LOCAL \<rparr>"

definition speakAction :: Action where
  "speakAction =
     \<lparr> actorId = ''npc-1'', targetId = Some ''npc-2'', type_action = SPEAK, tags = [SOCIAL] \<rparr>"

text \<open>
  A graph in which the edge \<open>a->b\<close> was created before the node \<open>a\<close> was added, so
  the node does not list it yet.
\<close>

definition staleGraph :: SocialGraphState where
  "staleGraph =
     \<lparr> nodes = [(''a'', \<lparr> id_node = ''a'', outgoingRelations = [], incomingRelations = [] \<rparr>)],
       relationships =
         [(''a->b'', \<lparr> sourceId = ''a'', targetId_rel = ''b'', trust = 0.5, intimacy = 0.25,
                        interactions = 1, lastInteractionTurn = 1 \<rparr>)] \<rparr>"

definition linkedGraph :: SocialGraphState where
  "linkedGraph =
     \<lparr> nodes = [(''a'', \<lparr> id_node = ''a'', outgoingRelations = [''a->b''], incomingRelations = [] \<rparr>)],
       relationships =
         [(''a->b'', \<lparr> sourceId = ''a'', targetId_rel = ''b'', trust = 0.5, intimacy = 0.25,
                        interactions = 1, lastInteractionTurn = 1 \<rparr>)] \<rparr>"

definition loneGraph :: SocialGraphState where
  "loneGraph =
     \<lparr> nodes = [(''a'', \<lparr> id_node = ''a'', outgoingRelations = [], incomingRelations = [] \<rparr>)],
       relationships = [] \<rparr>"

text \<open>
  An attack in the market at visibility 0.75, an observer in the market whose attention
  is the double written \<open>0.6666666666666666\<close>, an observer in the forest, one impact and
  a character without beliefs.
\<close>

definition glimpseEvent :: WorldEvent where
  "glimpseEvent =
     \<lparr> id_event = ''e1'', type_event = ''ATTACK'', actorId_event = ''npc-2'',
       targetId_event = None, location = ''market'', turn_event = 3,
       visibility = Num 0.75 \<rparr>"

definition glimpseContext :: ObservationContext where
  "glimpseContext =
     \<lparr> observerId = ''npc-1'', observerLocation = ''market'',
       attentionLevel = round64 0.6666666666666666, intelligence = Num 1 \<rparr>"

definition farContext :: ObservationContext where
  "farContext =
     \<lparr> observerId = ''npc-1'', observerLocation = ''forest'',
       attentionLevel = Num 1, intelligence = Num 1 \<rparr>"

definition rumourImpact :: PropositionImpact where
  "rumourImpact =
     \<lparr> proposition_impact = ''war is coming'', likelihoodIfTrue = round64 0.8,
       likelihoodIfFalse = round64 0.2 \<rparr>"

definition blankBeliefs :: BeliefState where
  "blankBeliefs = \<lparr> characterId = ''npc-1'', beliefs = [] \<rparr>"

section \<open>Notions used to state the properties\<close>

text \<open>
  A pressure entry is due for a chronicle when it has reached the threshold and the last
  chronicle of its type, if any, is at least the minimum gap in the past.
\<close>

definition chronicleDue :: "ExtendedWorldState \<Rightarrow> string \<times> real \<Rightarrow> bool" where
  "chronicleDue world kv =
     (snd kv \<ge> 2 \<and> (case map_of (lastChronicleTurn world) (fst kv) of
                        None \<Rightarrow> True | Some l \<Rightarrow> turn world - l \<ge> 3))"

definition eraEntry :: "Ambient \<Rightarrow> ExtendedWorldState \<Rightarrow> nat \<times> string \<times> real \<Rightarrow> ChronicleEntry" where
  "eraEntry amb world ikv =
     \<lparr> id_chronicle = randomUUID amb (fst ikv), year_chronicle = year world,
       summary = ''An era shaped by '' @ toLowerCase (fst (snd ikv)) @ ''.'',
       derivedMeaningIds = [], scope_chronicle = LOCAL \<rparr>"

definition relieve :: "ExtendedWorldState \<Rightarrow> string \<times> real \<Rightarrow> string \<times> real" where
  "relieve world kv = (if chronicleDue world kv then (fst kv, snd kv * 0.4) else kv)"

text \<open>The pressure object holds each type once.\<close>

definition pressureKeysDistinct :: "ExtendedWorldState \<Rightarrow> bool" where
  "pressureKeysDistinct world = distinct (map fst (meaningPressure world))"

text \<open>
  The relationship table holds each id once, and every edge is within the ranges its type
  documents: trust in \<open>[-1, 1]\<close>, intimacy in \<open>[0, 1]\<close>.
\<close>

definition edgesInRange :: "SocialGraphState \<Rightarrow> bool" where
  "edgesInRange graph =
     (distinct (map fst (relationships graph))
      \<and> (\<forall>kv \<in> set (relationships graph).
            - 1 \<le> trust (snd kv) \<and> trust (snd kv) \<le> 1
          \<and> 0 \<le> intimacy (snd kv) \<and> intimacy (snd kv) \<le> 1))"

definition weightsBounded :: "(ActionTag \<times> real) list \<Rightarrow> bool" where
  "weightsBounded m = (\<forall>kw \<in> set m. - 0.6 \<le> snd kw \<and> snd kw \<le> 0.6)"

definition decayed :: "int \<Rightarrow> Relationship \<Rightarrow> Relationship" where
  "decayed currentTurn rel =
     rel\<lparr> trust := clamp (trust rel * (1 - TRUST_DECAY_RATE)
                              powi (currentTurn - lastInteractionTurn rel)) (-1) 1,
          intimacy := clamp (intimacy rel * (1 - INTIMACY_DECAY_RATE)
                              powi (currentTurn - lastInteractionTurn rel)) 0 1 \<rparr>"

text \<open>
  The rank one round gives a node, \<open>PR(v) = (1-d)/N + d * \<Sigma> w * PR(u) / L(u)\<close> from the
  ranks of the round before, and the node's change in that round.
\<close>

definition nodeRank :: "SocialGraphState \<Rightarrow> nat \<Rightarrow> (string \<times> real) list \<Rightarrow> string \<Rightarrow> real" where
  "nodeRank graph n ranks nodeId =
     (case map_of (nodes graph) nodeId of
        None \<Rightarrow> 0
      | Some node \<Rightarrow>
          (case incomingSum graph ranks (incomingRelations node) 0 of
             Inl e \<Rightarrow> 0
           | Inr s \<Rightarrow> (1 - 0.85) / real n + 0.85 * s))"

definition nodeChange :: "SocialGraphState \<Rightarrow> nat \<Rightarrow> (string \<times> real) list \<Rightarrow> string \<Rightarrow> real" where
  "nodeChange graph n ranks nodeId =
     \<bar>nodeRank graph n ranks nodeId - (case map_of ranks nodeId of None \<Rightarrow> 0 | Some r \<Rightarrow> r)\<bar>"


section \<open>Dictionaries as association lists\<close>

lemma update_fresh: "k \<notin> fst ` set m \<Longrightarrow> AList.update k v m = m @ [(k, v)]"
  by (induction m) auto

lemma update_middle:
  "k \<notin> fst ` set done \<Longrightarrow> AList.update k v (done @ (k, v') # rest) = done @ (k, v) # rest"
  by (induction "done") auto

lemma set_update_cases:
  "kw \<in> set (AList.update k v m) \<Longrightarrow> kw = (k, v) \<or> kw \<in> set m"
  by (induction m) (auto split: if_splits)

text \<open>
  A loop over the entries a dictionary had when the loop started, which overwrites the
  entry it is visiting, rewrites the dictionary entry by entry.
\<close>

lemma fold_update_snapshot:
  assumes "distinct (map fst rest)" "fst ` set done \<inter> fst ` set rest = {}"
  shows "fold (\<lambda>kv acc. AList.update (fst kv) (f (fst kv) (snd kv)) acc) rest (done @ rest)
         = done @ map (\<lambda>kv. (fst kv, f (fst kv) (snd kv))) rest"
  using assms
proof (induction rest arbitrary: "done")
  case Nil
  then show ?case by simp
next
  case (Cons kv rest)
  obtain k v where kv: "kv = (k, v)" by (cases kv)
  have notin: "k \<notin> fst ` set done" using Cons.prems kv by auto
  have step: "AList.update k (f k v) (done @ (k, v) # rest) = (done @ [(k, f k v)]) @ rest"
    using update_middle [OF notin] by simp
  have d: "distinct (map fst rest)" using Cons.prems by simp
  have disj: "fst ` set (done @ [(k, f k v)]) \<inter> fst ` set rest = {}"
    using Cons.prems kv by auto
  show ?case
    using Cons.IH [OF d disj] step by (simp add: kv)
qed

text \<open>A loop that copies the entries of one dictionary into another, transformed.\<close>

lemma fold_update_fresh:
  assumes "distinct (map fst xs)" "fst ` set xs \<inter> fst ` set acc = {}"
  shows "fold (\<lambda>kv a. AList.update (fst kv) (f (snd kv)) a) xs acc
           = acc @ map (\<lambda>kv. (fst kv, f (snd kv))) xs"
  using assms
proof (induction xs arbitrary: acc)
  case Nil
  then show ?case by simp
next
  case (Cons kv xs)
  have fresh: "fst kv \<notin> fst ` set acc" using Cons.prems(2) by auto
  have d: "distinct (map fst xs)" using Cons.prems(1) by simp
  have disj: "fst ` set xs \<inter> fst ` set (acc @ [(fst kv, f (snd kv))]) = {}"
    using Cons.prems by auto
  show ?case using Cons.IH [OF d disj] update_fresh [OF fresh] by simp
qed

section \<open>Ambient calls\<close>

lemma mapAmbient_map:
  assumes "\<And>k x. g (fst (f k x)) = h x"
  shows "map g (fst (mapAmbient f n xs)) = map h xs"
proof (induction xs arbitrary: n)
  case Nil
  then show ?case by simp
next
  case (Cons x xs)
  obtain y n1 where f: "f n x = (y, n1)" by (cases "f n x")
  obtain ys n2 where r: "mapAmbient f n1 xs = (ys, n2)" by (cases "mapAmbient f n1 xs")
  have "g y = h x" using assms [of n x] f by simp
  moreover have "map g ys = map h xs" using Cons.IH [of n1] r by simp
  ultimately show ?case by (simp add: f r)
qed

section \<open>Rounding to binary64\<close>

text \<open>
  The spacing \<open>q\<close> of \<^const>\<open>roundBinary\<close> once the binary exponent of the argument is
  known; with these, a rounding of a given rational is a computation.
\<close>

lemma bitlen_scaled:
  fixes a :: real
  assumes "2 powi e \<le> a" "a < 2 powi (e + 1)" "- int c \<le> e"
  shows "bitlen \<lfloor>a * 2 ^ c\<rfloor> = e + int c + 1"
proof -
  define k where "k = nat (e + int c)"
  have ke: "int k = e + int c" using assms(3) by (simp add: k_def)
  have c: "(2::real) ^ c = 2 powi (int c)" by simp
  have p1: "(2::real) powi e * 2 ^ c = 2 ^ k"
  proof -
    have "(2::real) powi e * 2 powi (int c) = 2 powi (e + int c)"
      by (simp add: power_int_add)
    also have "\<dots> = 2 powi (int k)" by (simp only: ke)
    also have "\<dots> = 2 ^ k" by simp
    finally show ?thesis by (simp only: c)
  qed
  have p2: "(2::real) powi (e + 1) * 2 ^ c = 2 ^ Suc k"
  proof -
    have "(2::real) powi (e + 1) * 2 powi (int c) = 2 powi (e + 1 + int c)"
      by (simp add: power_int_add)
    also have "e + 1 + int c = int (Suc k)" using ke by simp
    also have "(2::real) powi (int (Suc k)) = 2 ^ Suc k" by (rule power_int_of_nat)
    finally show ?thesis by (simp only: c)
  qed
  have pos: "(0::real) < 2 ^ c" by simp
  have lo: "(2::real) ^ k \<le> a * 2 ^ c"
    using mult_right_mono [OF assms(1), of "2 ^ c"] pos unfolding p1 by simp
  have hi: "a * 2 ^ c < (2::real) ^ Suc k"
    using mult_strict_right_mono [OF assms(2) pos] unfolding p2 .
  have lo': "(2::int) ^ k \<le> \<lfloor>a * 2 ^ c\<rfloor>"
    using lo by (simp add: le_floor_iff)
  have hi': "\<lfloor>a * 2 ^ c\<rfloor> < (2::int) ^ Suc k"
    using hi by (simp add: floor_less_iff)
  have "bitlen \<lfloor>a * 2 ^ c\<rfloor> \<le> int k + 1"
    using hi' by (simp add: bitlen_le_iff_power nat_add_distrib)
  moreover have "int k + 1 \<le> bitlen \<lfloor>a * 2 ^ c\<rfloor>"
    using lo' by (simp add: bitlen_ge_iff_power nat_add_distrib)
  ultimately show ?thesis using ke by simp
qed

lemma roundBinary_normal:
  assumes "2 powi e \<le> \<bar>x\<bar>" "\<bar>x\<bar> < 2 powi (e + 1)" "int p - 1 - int c \<le> e" "p \<ge> 1"
  shows "roundBinary p c emax x =
     (let q = 2 powi (e + 1 - int p);
          r = of_int (roundHalfEven (\<bar>x\<bar> / q)) * q
      in if r \<ge> 2 ^ emax then (if x < 0 then NegInfinity else PosInfinity)
         else Num (if x < 0 then - r else r))"
proof -
  have "- int c \<le> e" using assms(3,4) by simp
  from bitlen_scaled [OF assms(1,2) this]
  have b: "bitlen \<lfloor>\<bar>x\<bar> * 2 ^ c\<rfloor> = e + int c + 1" .
  have "max (bitlen \<lfloor>\<bar>x\<bar> * 2 ^ c\<rfloor> - int p) 0 - int c = e + 1 - int p"
    unfolding b using assms(3) by simp
  then show ?thesis by (simp only: roundBinary_def Let_def)
qed


lemma round64_normal:
  assumes "2 powi e \<le> \<bar>x\<bar>" "\<bar>x\<bar> < 2 powi (e + 1)" "- 1022 \<le> e"
  shows "round64 x =
     (let q = 2 powi (e - 52);
          r = of_int (roundHalfEven (\<bar>x\<bar> / q)) * q
      in if r \<ge> 2 ^ 1024 then (if x < 0 then NegInfinity else PosInfinity)
         else Num (if x < 0 then - r else r))"
proof -
  have "int 53 - 1 - int 1074 \<le> e" using assms(3) by simp
  from roundBinary_normal [OF assms(1,2) this, of 1024]
  have "roundBinary 53 1074 1024 x =
     (let q = 2 powi (e + 1 - int 53);
          r = of_int (roundHalfEven (\<bar>x\<bar> / q)) * q
      in if r \<ge> 2 ^ 1024 then (if x < 0 then NegInfinity else PosInfinity)
         else Num (if x < 0 then - r else r))" by simp
  moreover have "e + 1 - int 53 = e - 52" by simp
  ultimately show ?thesis by (simp only: round64_def)
qed



lemma round64_one: "round64 1 = Num 1"
  by (subst round64_normal [where e = 0]) (simp_all add: roundHalfEven_def)






lemma double_0_3: "round64 (3 / 10) = Num (5404319552844595 / 18014398509481984)"
  by (subst round64_normal [where e = "- 2"]) (simp_all add: roundHalfEven_def)



lemma double_0_666: "round64 (3333333333333333 / 5000000000000000) = Num (6004799503160661 / 9007199254740992)"
  by (subst round64_normal [where e = "- 1"]) (simp_all add: roundHalfEven_def)

lemma double_0_75: "round64 (3 / 4) = Num (3 / 4)"
  by (subst round64_normal [where e = "- 1"]) (simp_all add: roundHalfEven_def)



















text \<open>
  The products in the observability of the sample event: \<open>0.75 * 0.6666666666666666\<close>
  lies below one half and rounds to one half; \<open>0.75 * 0.3\<close> stays below.
\<close>

lemma glimpse_product: "round64 (18014398509481983 / 36028797018963968) = Num (1 / 2)"
  by (subst round64_normal [where e = "- 2"]) (simp_all add: roundHalfEven_def)

lemma far_first: "round64 (16212958658533785 / 72057594037927936) = Num (2026619832316723 / 9007199254740992)"
  by (subst round64_normal [where e = "- 3"]) (simp_all add: roundHalfEven_def)

lemma far_product: "round64 (2026619832316723 / 9007199254740992) = Num (2026619832316723 / 9007199254740992)"
  by (subst round64_normal [where e = "- 3"]) (simp_all add: roundHalfEven_def)

section \<open>Properties of the belief system\<close>









lemma not_observed:
  assumes "js_lt x (Num 0.5)"
  shows "\<not> js_ge (clamp_belief x (Num 0) (Num 1)) (Num 0.5)"
proof (cases x)
  case (Num y)
  with assms have "y < 1 / 2" by simp
  then show ?thesis
    by (simp add: Num clamp_belief_def Math_max_def Math_min_def js_ge_def)
next
  case PosInfinity
  with assms show ?thesis by simp
next
  case NegInfinity
  then show ?thesis by (simp add: clamp_belief_def Math_max_def Math_min_def js_ge_def)
next
  case NaN
  with assms show ?thesis by simp
qed

lemma update_nonempty: "AList.update k v al \<noteq> []"
  by (cases al) simp_all

text \<open>
  Claim C9, as the claim states it: whenever \<open>visibility * locationFactor * attention\<close> is
  below 0.5 the update is a no-op. The code compares the product that double arithmetic
  computes. For the sample event, seen from its own location, the product of the
  visibility 0.75, the factor 1.0 and the attention \<open>0.6666666666666666\<close> lies below
  one half, but the nearest double is one half itself; the event counts as observed and
  the belief state gains a belief.
\<close>

theorem updateBeliefFromEvent_unobserved_noop_counterexample:
  "visibility glimpseEvent = Num 0.75
   \<and> attentionLevel glimpseContext = round64 0.6666666666666666
   \<and> attentionLevel glimpseContext = Num (6004799503160661 / 9007199254740992)
   \<and> observerLocation glimpseContext = location glimpseEvent
   \<and> (0.75 :: real) * 1.0 * (6004799503160661 / 9007199254740992) < 0.5
   \<and> updateBeliefFromEvent blankBeliefs glimpseEvent glimpseContext [rumourImpact]
       \<noteq> blankBeliefs"
proof -
  have obs: "isEventObserved glimpseEvent glimpseContext (Num 0.5)"
    by (simp add: isEventObserved_def calculateObservability_def glimpseEvent_def
          glimpseContext_def double_0_666 double_0_75 glimpse_product clamp_belief_def
          Math_max_def Math_min_def js_ge_def)
  have "beliefs (updateBeliefFromEvent blankBeliefs glimpseEvent glimpseContext [rumourImpact])
          \<noteq> beliefs blankBeliefs"
    using obs by (simp add: updateBeliefFromEvent_def updateBeliefStep_def Let_def
          blankBeliefs_def update_nonempty)
  then have "updateBeliefFromEvent blankBeliefs glimpseEvent glimpseContext [rumourImpact]
       \<noteq> blankBeliefs" by auto
  then show ?thesis
    by (simp add: glimpseEvent_def glimpseContext_def double_0_666)
qed

text \<open>
  Claim C9, amended. If \<open>visibility * locationFactor * attention\<close>, as double arithmetic
  computes it (the product of visibility and factor rounded, then the product with the
  attention rounded), is below 0.5, where the location factor is 1.0 when the observer
  stands at the event's location and the double 0.3 otherwise, then
  \<open>updateBeliefFromEvent\<close> returns the belief state it was given, whatever the impacts.
\<close>

theorem updateBeliefFromEvent_unobserved_noop:
  assumes "js_lt (js_mul (js_mul (visibility event)
                            (if observerLocation context = location event then Num 1.0
                             else round64 0.3))
                     (attentionLevel context))
                 (Num 0.5)"
  shows "updateBeliefFromEvent state event context impacts = state"
proof -
  have "\<not> isEventObserved event context (Num 0.5)"
    using not_observed [OF assms]
    by (simp add: isEventObserved_def calculateObservability_def Let_def eq_commute)
  then show ?thesis by (simp add: updateBeliefFromEvent_def)
qed

theorem updateBeliefFromEvent_unobserved_noop_witness:
  "updateBeliefFromEvent blankBeliefs glimpseEvent farContext [rumourImpact] = blankBeliefs"
  by (rule updateBeliefFromEvent_unobserved_noop)
     (simp add: glimpseEvent_def farContext_def double_0_3 far_first far_product)

section \<open>Chronicle emission\<close>

lemma chronicle_loop:
  assumes "distinct (map fst rest)"
    and "fst ` set pre \<inter> fst ` set rest = {}"
    and "\<forall>k \<in> fst ` set rest. map_of lt k = map_of (lastChronicleTurn world) k"
  shows "\<exists>lt'. fold (chronicleStep amb world) rest (entries, pre @ rest, lt, n)
           = (entries @ map (eraEntry amb world) (enumerate n (filter (chronicleDue world) rest)),
              pre @ map (relieve world) rest,
              lt',
              n + length (filter (chronicleDue world) rest))
         \<and> (\<forall>k. map_of lt' k = (if k \<in> fst ` set (filter (chronicleDue world) rest)
                                 then Some (turn world) else map_of lt k))"
  using assms
proof (induction rest arbitrary: entries pre lt n)
  case Nil
  then show ?case by simp
next
  case (Cons kv rest)
  obtain k v where kv: "kv = (k, v)" by (cases kv)
  have notin: "k \<notin> fst ` set pre" using Cons.prems(2) kv by auto
  have knew: "k \<notin> fst ` set rest" using Cons.prems(1) kv by auto
  have d: "distinct (map fst rest)" using Cons.prems(1) by simp
  have can: "(v \<ge> CHRONICLE_THRESHOLD \<and>
              (case map_of lt k of None \<Rightarrow> True
               | Some lastT \<Rightarrow> turn world - lastT \<ge> MIN_CHRONICLE_GAP)) = chronicleDue world (k, v)"
    using Cons.prems(3) kv
    by (simp add: chronicleDue_def CHRONICLE_THRESHOLD_def MIN_CHRONICLE_GAP_def
          split: option.splits)
  show ?case
  proof (cases "chronicleDue world (k, v)")
    case True
    let ?lt = "AList.update k (turn world) lt"
    have step: "chronicleStep amb world kv (entries, pre @ kv # rest, lt, n)
        = (entries @ [eraEntry amb world (n, k, v)], (pre @ [(k, v * 0.4)]) @ rest, ?lt, Suc n)"
      using True can update_middle [OF notin, of "v * 0.4" v rest]
      by (simp add: chronicleStep_def kv eraEntry_def)
    have disj: "fst ` set (pre @ [(k, v * 0.4)]) \<inter> fst ` set rest = {}"
      using Cons.prems(2) knew kv by auto
    have inv: "\<forall>k' \<in> fst ` set rest. map_of ?lt k' = map_of (lastChronicleTurn world) k'"
      using Cons.prems(3) knew by (auto simp: update_conv')
    from Cons.IH [OF d disj inv, of "entries @ [eraEntry amb world (n, k, v)]" "Suc n"]
    obtain lt' where r: "fold (chronicleStep amb world) rest
          (entries @ [eraEntry amb world (n, k, v)], (pre @ [(k, v * 0.4)]) @ rest, ?lt, Suc n)
        = ((entries @ [eraEntry amb world (n, k, v)])
              @ map (eraEntry amb world) (enumerate (Suc n) (filter (chronicleDue world) rest)),
           (pre @ [(k, v * 0.4)]) @ map (relieve world) rest, lt',
           Suc n + length (filter (chronicleDue world) rest))"
      and m: "\<forall>k'. map_of lt' k' = (if k' \<in> fst ` set (filter (chronicleDue world) rest)
                                 then Some (turn world) else map_of ?lt k')"
      by blast
    have "fold (chronicleStep amb world) (kv # rest) (entries, pre @ kv # rest, lt, n)
           = (entries @ map (eraEntry amb world)
                          (enumerate n (filter (chronicleDue world) (kv # rest))),
              pre @ map (relieve world) (kv # rest), lt',
              n + length (filter (chronicleDue world) (kv # rest)))"
      using step r True by (simp add: kv relieve_def)
    moreover have "\<forall>k'. map_of lt' k' =
         (if k' \<in> fst ` set (filter (chronicleDue world) (kv # rest))
          then Some (turn world) else map_of lt k')"
      using m True by (auto simp: kv update_conv')
    ultimately show ?thesis by blast
  next
    case False
    have step: "chronicleStep amb world kv (entries, pre @ kv # rest, lt, n)
        = (entries, (pre @ [(k, v)]) @ rest, lt, n)"
      using False can by (simp add: chronicleStep_def kv)
    have disj: "fst ` set (pre @ [(k, v)]) \<inter> fst ` set rest = {}"
      using Cons.prems(2) knew kv by auto
    have inv: "\<forall>k' \<in> fst ` set rest. map_of lt k' = map_of (lastChronicleTurn world) k'"
      using Cons.prems(3) by auto
    from Cons.IH [OF d disj inv, of entries n]
    obtain lt' where r: "fold (chronicleStep amb world) rest
          (entries, (pre @ [(k, v)]) @ rest, lt, n)
        = (entries @ map (eraEntry amb world) (enumerate n (filter (chronicleDue world) rest)),
           (pre @ [(k, v)]) @ map (relieve world) rest, lt',
           n + length (filter (chronicleDue world) rest))"
      and m: "\<forall>k'. map_of lt' k' = (if k' \<in> fst ` set (filter (chronicleDue world) rest)
                                 then Some (turn world) else map_of lt k')"
      by blast
    have "fold (chronicleStep amb world) (kv # rest) (entries, pre @ kv # rest, lt, n)
           = (entries @ map (eraEntry amb world)
                          (enumerate n (filter (chronicleDue world) (kv # rest))),
              pre @ map (relieve world) (kv # rest), lt',
              n + length (filter (chronicleDue world) (kv # rest)))"
      using step r False by (simp add: kv relieve_def)
    moreover have "\<forall>k'. map_of lt' k' =
         (if k' \<in> fst ` set (filter (chronicleDue world) (kv # rest))
          then Some (turn world) else map_of lt k')"
      using m False by (auto simp: kv)
    ultimately show ?thesis by blast
  qed
qed

lemma generateChronicle_closed_form:
  assumes "distinct (map fst (meaningPressure world))"
  shows "chronicles_result (fst (generateChronicleFromPressure amb n world))
           = map (eraEntry amb world)
               (enumerate n (filter (chronicleDue world) (meaningPressure world)))
       \<and> meaningPressure (world_result (fst (generateChronicleFromPressure amb n world)))
           = map (relieve world) (meaningPressure world)
       \<and> (\<forall>k. map_of (lastChronicleTurn
                        (world_result (fst (generateChronicleFromPressure amb n world)))) k
             = (if k \<in> fst ` set (filter (chronicleDue world) (meaningPressure world))
                then Some (turn world) else map_of (lastChronicleTurn world) k))
       \<and> world_result (fst (generateChronicleFromPressure amb n world))
           = world\<lparr> meaningPressure :=
                      meaningPressure (world_result (fst (generateChronicleFromPressure amb n world))),
                    lastChronicleTurn :=
                      lastChronicleTurn (world_result (fst (generateChronicleFromPressure amb n world))) \<rparr>"
proof -
  from chronicle_loop [of "meaningPressure world" "[]" "lastChronicleTurn world" world amb "[]" n]
       assms
  obtain lt' where r: "fold (chronicleStep amb world) (meaningPressure world)
              ([], meaningPressure world, lastChronicleTurn world, n)
           = (map (eraEntry amb world)
                (enumerate n (filter (chronicleDue world) (meaningPressure world))),
              map (relieve world) (meaningPressure world), lt',
              n + length (filter (chronicleDue world) (meaningPressure world)))"
    and m: "\<forall>k. map_of lt' k =
              (if k \<in> fst ` set (filter (chronicleDue world) (meaningPressure world))
               then Some (turn world) else map_of (lastChronicleTurn world) k)"
    by auto
  show ?thesis using m by (simp add: generateChronicleFromPressure_def r)
qed

lemma fear_cooldown_example:
  assumes "meaningPressure world = [(''FEAR'', 2)]" "turn world = 5"
          "lastChronicleTurn world = [(''FEAR'', 1)]"
  shows "map summary (chronicles_result (fst (generateChronicleFromPressure amb n world)))
            = [''An era shaped by fear.'']
       \<and> meaningPressure (world_result (fst (generateChronicleFromPressure amb n world)))
            = [(''FEAR'', 0.8)]
       \<and> lastChronicleTurn (world_result (fst (generateChronicleFromPressure amb n world)))
            = [(''FEAR'', 5)]
       \<and> chronicles_result (fst (generateChronicleFromPressure amb n'
            ((world_result (fst (generateChronicleFromPressure amb n world)))
               \<lparr> turn := 6, meaningPressure := [(''FEAR'', 2)] \<rparr>))) = []"
  using assms
  by (simp add: generateChronicleFromPressure_def chronicleStep_def CHRONICLE_THRESHOLD_def
        MIN_CHRONICLE_GAP_def toLowerCase_def lowerChar_def)

text \<open>
  Claim C1. For a world whose pressure object has each type once,
  \<open>generateChronicleFromPressure\<close> emits exactly one entry for each pressure entry that is
  due (pressure at least 2.0, and the last chronicle of the type at least 3 turns in the
  past or absent), in the order of the pressure entries, with the summary naming the type
  in lower case; a due type's pressure is multiplied by 0.4 and its last-chronicle turn
  becomes the current turn; every other type keeps its pressure and last-chronicle turn,
  and no other field of the world changes. With \<open>FEAR\<close> at 2.0, turn 5 and last chronicle
  at turn 1, one chronicle is emitted and the pressure becomes 0.8; a second call at turn 6
  with the pressure back at 2.0 emits nothing.
\<close>

theorem generateChronicleFromPressure_emission:
  assumes "distinct (map fst (meaningPressure world))"
  shows "(let r = fst (generateChronicleFromPressure amb n world) in
          chronicles_result r
            = map (\<lambda>ikv. \<lparr> id_chronicle = randomUUID amb (fst ikv),
                           year_chronicle = year world,
                           summary = ''An era shaped by '' @ toLowerCase (fst (snd ikv)) @ ''.'',
                           derivedMeaningIds = [], scope_chronicle = LOCAL \<rparr>)
                (enumerate n (filter (chronicleDue world) (meaningPressure world)))
        \<and> meaningPressure (world_result r)
            = map (\<lambda>kv. if chronicleDue world kv then (fst kv, snd kv * 0.4) else kv)
                (meaningPressure world)
        \<and> (\<forall>ty. map_of (lastChronicleTurn (world_result r)) ty
              = (if \<exists>p. (ty, p) \<in> set (meaningPressure world) \<and> chronicleDue world (ty, p)
                 then Some (turn world) else map_of (lastChronicleTurn world) ty))
        \<and> world_result r
            = world\<lparr> meaningPressure := meaningPressure (world_result r),
                     lastChronicleTurn := lastChronicleTurn (world_result r) \<rparr>
        \<and> (meaningPressure world = [(''FEAR'', 2)] \<and> turn world = 5
             \<and> lastChronicleTurn world = [(''FEAR'', 1)]
           \<longrightarrow> map summary (chronicles_result r) = [''An era shaped by fear.'']
             \<and> meaningPressure (world_result r) = [(''FEAR'', 0.8)]
             \<and> lastChronicleTurn (world_result r) = [(''FEAR'', 5)]
             \<and> chronicles_result (fst (generateChronicleFromPressure amb n'
                  ((world_result r)\<lparr> turn := 6, meaningPressure := [(''FEAR'', 2)] \<rparr>))) = []))"
proof -
  let ?r = "fst (generateChronicleFromPressure amb n world)"
  note cf = generateChronicle_closed_form [OF assms, of amb n]
  have c: "chronicles_result ?r
            = map (\<lambda>ikv. \<lparr> id_chronicle = randomUUID amb (fst ikv),
                           year_chronicle = year world,
                           summary = ''An era shaped by '' @ toLowerCase (fst (snd ikv)) @ ''.'',
                           derivedMeaningIds = [], scope_chronicle = LOCAL \<rparr>)
                (enumerate n (filter (chronicleDue world) (meaningPressure world)))"
    using cf by (simp add: eraEntry_def [abs_def])
  have p: "meaningPressure (world_result ?r)
            = map (\<lambda>kv. if chronicleDue world kv then (fst kv, snd kv * 0.4) else kv)
                (meaningPressure world)"
    using cf by (simp add: relieve_def [abs_def])
  have l: "\<forall>ty. map_of (lastChronicleTurn (world_result ?r)) ty
              = (if \<exists>p. (ty, p) \<in> set (meaningPressure world) \<and> chronicleDue world (ty, p)
                 then Some (turn world) else map_of (lastChronicleTurn world) ty)"
  proof
    fix ty
    have "(ty \<in> fst ` set (filter (chronicleDue world) (meaningPressure world)))
            = (\<exists>p. (ty, p) \<in> set (meaningPressure world) \<and> chronicleDue world (ty, p))"
      by force
    then show "map_of (lastChronicleTurn (world_result ?r)) ty
              = (if \<exists>p. (ty, p) \<in> set (meaningPressure world) \<and> chronicleDue world (ty, p)
                 then Some (turn world) else map_of (lastChronicleTurn world) ty)"
      using cf by simp
  qed
  have w: "world_result ?r
            = world\<lparr> meaningPressure := meaningPressure (world_result ?r),
                     lastChronicleTurn := lastChronicleTurn (world_result ?r) \<rparr>"
    using cf by blast
  have e: "meaningPressure world = [(''FEAR'', 2)] \<and> turn world = 5
             \<and> lastChronicleTurn world = [(''FEAR'', 1)]
           \<longrightarrow> map summary (chronicles_result ?r) = [''An era shaped by fear.'']
             \<and> meaningPressure (world_result ?r) = [(''FEAR'', 0.8)]
             \<and> lastChronicleTurn (world_result ?r) = [(''FEAR'', 5)]
             \<and> chronicles_result (fst (generateChronicleFromPressure amb n'
                  ((world_result ?r)\<lparr> turn := 6, meaningPressure := [(''FEAR'', 2)] \<rparr>))) = []"
    using fear_cooldown_example [of world amb n n'] by blast
  show ?thesis
    unfolding Let_def using c p l w e by (intro conjI)
qed

theorem generateChronicleFromPressure_emission_witness:
  "distinct (map fst (meaningPressure fearWorld))
   \<and> map summary (chronicles_result (fst (generateChronicleFromPressure fixedAmbient 0 fearWorld)))
       = [''An era shaped by fear.'']
   \<and> meaningPressure (world_result (fst (generateChronicleFromPressure fixedAmbient 0 fearWorld)))
       = [(''FEAR'', 0.8)]
   \<and> chronicles_result (fst (generateChronicleFromPressure fixedAmbient 7
         ((world_result (fst (generateChronicleFromPressure fixedAmbient 0 fearWorld)))
            \<lparr> turn := 6, meaningPressure := [(''FEAR'', 2)] \<rparr>))) = []"
proof -
  have d: "distinct (map fst (meaningPressure fearWorld))"
    by (simp add: fearWorld_def initialWorld_def)
  have h: "meaningPressure fearWorld = [(''FEAR'', 2)] \<and> turn fearWorld = 5
             \<and> lastChronicleTurn fearWorld = [(''FEAR'', 1)]"
    by (simp add: fearWorld_def initialWorld_def)
  from generateChronicleFromPressure_emission [OF d, of fixedAmbient 0 7] h d
  show ?thesis unfolding Let_def by blast
qed

section \<open>Echo amplification\<close>

lemma echoStep_map:
  assumes "distinct (map fst pressure)"
  shows "echoStep echo pressure =
         map (\<lambda>kv. (fst kv, snd kv + snd kv * TONE_FACTOR (tone echo)
                * (case map_of DECAY_SENSITIVITY (fst kv) of None \<Rightarrow> 0.7 | Some s \<Rightarrow> s) * 0.1))
           pressure"
proof -
  have "echoEntryStep echo = (\<lambda>kv acc. AList.update (fst kv)
           ((\<lambda>k v. v + v * TONE_FACTOR (tone echo)
                * (case map_of DECAY_SENSITIVITY k of None \<Rightarrow> 0.7 | Some s \<Rightarrow> s) * 0.1)
              (fst kv) (snd kv)) acc)"
    by (auto simp: echoEntryStep_def fun_eq_iff Let_def split: prod.splits)
  then show ?thesis
    unfolding echoStep_def
    using fold_update_snapshot [where ?done = "[]" and rest = pressure, OF assms]
    by simp
qed

lemma sensitivity_table:
  "(case map_of DECAY_SENSITIVITY k of None \<Rightarrow> 0.7 | Some s \<Rightarrow> s) =
   (if k = ''FEAR'' then 0.8 else if k = ''TRUST'' then 0.6
    else if k = ''RESPECT'' then 0.5 else (0.7::real))"
  by (simp add: DECAY_SENSITIVITY_def)

lemma tone_table:
  "TONE_FACTOR t = (case t of positive \<Rightarrow> 0.6 | negative \<Rightarrow> 1.0 | ambiguous \<Rightarrow> 0.3)"
  by (cases t) simp_all

lemma echoStep_keys:
  "distinct (map fst pressure) \<Longrightarrow> map fst (echoStep echo pressure) = map fst pressure"
  by (simp add: echoStep_map comp_def)

lemma fold_echoStep:
  "distinct (map fst pressure) \<Longrightarrow>
   fold echoStep es pressure =
   fold (\<lambda>echo. map (\<lambda>(ty, p).
          (ty, p + p * (case tone echo of positive \<Rightarrow> 0.6 | negative \<Rightarrow> 1.0 | ambiguous \<Rightarrow> 0.3)
                     * (if ty = ''FEAR'' then 0.8 else if ty = ''TRUST'' then 0.6
                        else if ty = ''RESPECT'' then 0.5 else 0.7) * 0.1))) es pressure"
proof (induction es arbitrary: pressure)
  case Nil
  then show ?case by simp
next
  case (Cons e es)
  have m: "echoStep e pressure = map (\<lambda>(ty, p).
          (ty, p + p * (case tone e of positive \<Rightarrow> 0.6 | negative \<Rightarrow> 1.0 | ambiguous \<Rightarrow> 0.3)
                     * (if ty = ''FEAR'' then 0.8 else if ty = ''TRUST'' then 0.6
                        else if ty = ''RESPECT'' then 0.5 else 0.7) * 0.1)) pressure"
    using echoStep_map [OF Cons.prems, of e]
    by (simp add: sensitivity_table tone_table case_prod_beta)
  have d: "distinct (map fst (echoStep e pressure))"
    using Cons.prems by (simp add: echoStep_keys)
  show ?case using Cons.IH [OF d] m by simp
qed

lemma fold_map_keys:
  "(\<And>e kv. fst (g e kv) = fst kv) \<Longrightarrow> map fst (fold (\<lambda>e. map (g e)) es xs) = map fst xs"
  by (induction es arbitrary: xs) (simp_all add: comp_def)

lemma fold_map_compound:
  fixes a :: "'e \<Rightarrow> real" and b :: "'k \<Rightarrow> real" and c :: real
  shows "map_of (fold (\<lambda>e. map (\<lambda>(k, p). (k, p + p * a e * b k * c))) es xs) k
     = map_option (\<lambda>p. p * prod_list (map (\<lambda>e. 1 + a e * b k * c) es)) (map_of xs k)"
proof (induction es arbitrary: xs)
  case Nil
  then show ?case by (simp add: option.map_ident)
next
  case (Cons e es)
  have "map_of (map (\<lambda>(k, p). (k, p + p * a e * b k * c)) xs) k
          = map_option (\<lambda>p. p * (1 + a e * b k * c)) (map_of xs k)"
    by (induction xs) (auto simp: algebra_simps)
  then show ?case using Cons.IH [of "map (\<lambda>(k, p). (k, p + p * a e * b k * c)) xs"]
    by (simp add: option.map_comp comp_def mult.assoc)
qed

text \<open>
  Claim C3. For a world whose pressure object has each type once, \<open>applyEchoToPressure\<close>
  goes through the echoes in order, and one echo of tone \<open>t\<close> turns every pressure entry
  \<open>(\<tau>, p)\<close> into \<open>(\<tau>, p + p * toneFactor t * sensitivity \<tau> * 0.1)\<close>, with the tone
  factors 0.6, 1.0, 0.3 for positive, negative, ambiguous and the sensitivities 0.8, 0.6,
  0.5 for FEAR, TRUST, RESPECT and 0.7 for any other type. The echoes compound: in the end
  an entry is its old value times the product over the echoes of
  \<open>1 + toneFactor * sensitivity * 0.1\<close>. The keys of the pressure object are unchanged, so
  no entry is created, and no other field of the world changes.
\<close>

theorem applyEchoToPressure_amplifies:
  assumes "distinct (map fst (meaningPressure world))"
  shows "(let toneFactor = (\<lambda>t. case t of positive \<Rightarrow> 0.6 | negative \<Rightarrow> 1.0 | ambiguous \<Rightarrow> 0.3);
              sensitivity = (\<lambda>ty. if ty = ''FEAR'' then 0.8 else if ty = ''TRUST'' then 0.6
                                   else if ty = ''RESPECT'' then 0.5 else 0.7)
          in applyEchoToPressure world
               = world\<lparr> meaningPressure :=
                   fold (\<lambda>echo. map (\<lambda>(ty, p).
                           (ty, p + p * toneFactor (tone echo) * sensitivity ty * 0.1)))
                     (echoes world) (meaningPressure world) \<rparr>
           \<and> map fst (meaningPressure (applyEchoToPressure world))
               = map fst (meaningPressure world)
           \<and> (\<forall>ty. map_of (meaningPressure (applyEchoToPressure world)) ty
                 = map_option
                     (\<lambda>p. p * prod_list (map (\<lambda>echo. 1 + toneFactor (tone echo) * sensitivity ty * 0.1)
                                          (echoes world)))
                     (map_of (meaningPressure world) ty)))"
proof -
  let ?tf = "\<lambda>t. case t of positive \<Rightarrow> (0.6::real) | negative \<Rightarrow> 1.0 | ambiguous \<Rightarrow> 0.3"
  let ?se = "\<lambda>ty. if ty = ''FEAR'' then (0.8::real) else if ty = ''TRUST'' then 0.6
                                   else if ty = ''RESPECT'' then 0.5 else 0.7"
  let ?new = "fold (\<lambda>echo. map (\<lambda>(ty, p). (ty, p + p * ?tf (tone echo) * ?se ty * 0.1)))
                (echoes world) (meaningPressure world)"
  have f: "meaningPressure (applyEchoToPressure world) = ?new"
    using fold_echoStep [OF assms, of "echoes world"] by (simp add: applyEchoToPressure_def)
  have a: "applyEchoToPressure world = world\<lparr> meaningPressure := ?new \<rparr>"
    using fold_echoStep [OF assms, of "echoes world"] by (simp add: applyEchoToPressure_def)
  have k: "map fst (meaningPressure (applyEchoToPressure world)) = map fst (meaningPressure world)"
    unfolding f by (rule fold_map_keys) (simp add: case_prod_beta)
  have v: "\<forall>ty. map_of (meaningPressure (applyEchoToPressure world)) ty
                 = map_option
                     (\<lambda>p. p * prod_list (map (\<lambda>echo. 1 + ?tf (tone echo) * ?se ty * 0.1)
                                          (echoes world)))
                     (map_of (meaningPressure world) ty)"
    unfolding f
    using fold_map_compound [of "\<lambda>echo. ?tf (tone echo)" ?se "0.1" "echoes world"
                               "meaningPressure world"]
    by simp
  show ?thesis unfolding Let_def using a k v by (intro conjI)
qed

theorem applyEchoToPressure_amplifies_witness:
  "distinct (map fst (meaningPressure echoWorld))
   \<and> meaningPressure (applyEchoToPressure echoWorld) = [(''FEAR'', 2.16), (''HOPE'', 1.07)]"
proof -
  have d: "distinct (map fst (meaningPressure echoWorld))"
    by (simp add: echoWorld_def initialWorld_def)
  have "meaningPressure (applyEchoToPressure echoWorld) = [(''FEAR'', 2.16), (''HOPE'', 1.07)]"
    using applyEchoToPressure_amplifies [OF d]
    by (simp add: echoWorld_def initialWorld_def)
  with d show ?thesis by simp
qed

section \<open>Tendency\<close>

lemma fold_mergeTendency:
  assumes "distinct (map tag ts)" "tag ` set ts \<inter> fst ` set acc = {}"
  shows "fold mergeTendency ts acc = acc @ map (\<lambda>t. (tag t, weight t)) ts"
  using assms
proof (induction ts arbitrary: acc)
  case Nil
  then show ?case by simp
next
  case (Cons t ts)
  have fresh: "tag t \<notin> fst ` set acc" using Cons.prems(2) by auto
  then have none: "map_of acc (tag t) = None" by (simp add: map_of_eq_None_iff)
  have step: "mergeTendency t acc = acc @ [(tag t, weight t)]"
    by (simp add: mergeTendency_def none update_fresh [OF fresh])
  have d: "distinct (map tag ts)" using Cons.prems(1) by simp
  have disj: "tag ` set ts \<inter> fst ` set (acc @ [(tag t, weight t)]) = {}"
    using Cons.prems by auto
  show ?case using Cons.IH [OF d disj] step by simp
qed

lemma clamp_tendency_bounded:
  "- 0.6 \<le> max (- 0.6) (min 0.6 (x::real)) \<and> max (- 0.6) (min 0.6 x) \<le> 0.6"
  by (simp add: max_def min_def)

lemma adjust_bounded:
  assumes "weightsBounded m"
  shows "weightsBounded (adjust tg d m)"
  unfolding weightsBounded_def
proof
  fix kw assume "kw \<in> set (adjust tg d m)"
  then have "kw \<in> set (AList.update tg
     (max (- 0.6) (min 0.6 ((case map_of m tg of None \<Rightarrow> 0 | Some w \<Rightarrow> w) + d))) m)"
    by (simp add: adjust_def Let_def TENDENCY_MIN_def TENDENCY_MAX_def)
  then have "kw = (tg, max (- 0.6) (min 0.6 ((case map_of m tg of None \<Rightarrow> 0 | Some w \<Rightarrow> w) + d)))
             \<or> kw \<in> set m"
    by (rule set_update_cases)
  then show "- 0.6 \<le> snd kw \<and> snd kw \<le> 0.6"
  proof
    assume "kw = (tg, max (- 0.6) (min 0.6 ((case map_of m tg of None \<Rightarrow> 0 | Some w \<Rightarrow> w) + d)))"
    then show ?thesis using clamp_tendency_bounded by simp
  next
    assume "kw \<in> set m"
    then show ?thesis using assms by (simp add: weightsBounded_def)
  qed
qed

lemma tendencyStep_bounded: "weightsBounded m \<Longrightarrow> weightsBounded (tendencyStep c m)"
  by (simp add: tendencyStep_def Let_def adjust_bounded)

lemma fold_tendencyStep_bounded:
  "weightsBounded m \<Longrightarrow> weightsBounded (fold tendencyStep cs m)"
  by (induction cs arbitrary: m) (simp_all add: tendencyStep_bounded)

lemma map_of_adjust:
  "map_of (adjust tg d m) =
     (map_of m)(tg \<mapsto> max (- 0.6) (min 0.6 ((case map_of m tg of None \<Rightarrow> 0 | Some w \<Rightarrow> w) + d)))"
  by (simp add: adjust_def Let_def update_conv' TENDENCY_MIN_def TENDENCY_MAX_def)

lemma era_lowered:
  "toLowerCase ''An era shaped by fear.'' = ''an era shaped by fear.''"
  "toLowerCase ''An era shaped by trust.'' = ''an era shaped by trust.''"
  "toLowerCase ''An era shaped by respect.'' = ''an era shaped by respect.''"
  by (simp_all add: toLowerCase_def lowerChar_def)

lemma tendencyStep_fear:
  "summary c = ''An era shaped by fear.'' \<Longrightarrow>
   tendencyStep c m = adjust SAFE 0.08 (adjust RISKY (-0.10) m)"
  by (simp add: tendencyStep_def era_lowered)

lemma tendencyStep_trust:
  "summary c = ''An era shaped by trust.'' \<Longrightarrow>
   tendencyStep c m = adjust PASSIVE (-0.04) (adjust SOCIAL 0.08 m)"
  by (simp add: tendencyStep_def era_lowered)

lemma tendencyStep_respect:
  "summary c = ''An era shaped by respect.'' \<Longrightarrow>
   tendencyStep c m = adjust AGGRESSIVE 0.05 m"
  by (simp add: tendencyStep_def era_lowered)

text \<open>
  Claim C4. \<open>applyChronicleTendency\<close> returns the world as it is when no chronicle was
  emitted, and otherwise folds the chronicles, in order, over the tag weights. The chronicle
  emitted for FEAR sets RISKY to its weight minus 0.10 and SAFE to its weight plus 0.08; the
  one for TRUST sets SOCIAL to plus 0.08 and PASSIVE to minus 0.04; the one for RESPECT sets
  AGGRESSIVE to plus 0.05; an absent weight counts as 0, each new weight is clamped to
  \<open>[-0.6, 0.6]\<close> as it is written, and no other tag changes. Hence, for a world whose
  tendency list has at most one entry per tag and all weights within \<open>[-0.6, 0.6]\<close>, every
  weight of the returned world lies within \<open>[-0.6, 0.6]\<close>.
\<close>

theorem applyChronicleTendency_bounded:
  assumes "distinct (map tag (tendency world))"
    and "\<forall>t \<in> set (tendency world). - 0.6 \<le> weight t \<and> weight t \<le> 0.6"
  shows "(let current = (\<lambda>m tg. case map_of m tg of None \<Rightarrow> 0 | Some w \<Rightarrow> w);
              clamped = (\<lambda>x::real. max (- 0.6) (min 0.6 x))
          in (\<forall>t \<in> set (tendency (applyChronicleTendency world cs)).
                 - 0.6 \<le> weight t \<and> weight t \<le> 0.6)
           \<and> (cs = [] \<longrightarrow> applyChronicleTendency world cs = world)
           \<and> (cs \<noteq> [] \<longrightarrow>
                applyChronicleTendency world cs
                  = world\<lparr> tendency :=
                      map (\<lambda>(tg, w). \<lparr> tag = tg, weight = w \<rparr>)
                        (fold tendencyStep cs (map (\<lambda>t. (tag t, weight t)) (tendency world))) \<rparr>)
           \<and> (\<forall>c m. summary c = ''An era shaped by '' @ toLowerCase (meaningKey FEAR) @ ''.'' \<longrightarrow>
                map_of (tendencyStep c m)
                  = (map_of m)(RISKY \<mapsto> clamped (current m RISKY - 0.10),
                               SAFE \<mapsto> clamped (current m SAFE + 0.08)))
           \<and> (\<forall>c m. summary c = ''An era shaped by '' @ toLowerCase (meaningKey TRUST) @ ''.'' \<longrightarrow>
                map_of (tendencyStep c m)
                  = (map_of m)(SOCIAL \<mapsto> clamped (current m SOCIAL + 0.08),
                               PASSIVE \<mapsto> clamped (current m PASSIVE - 0.04)))
           \<and> (\<forall>c m. summary c = ''An era shaped by '' @ toLowerCase (meaningKey RESPECT) @ ''.'' \<longrightarrow>
                map_of (tendencyStep c m)
                  = (map_of m)(AGGRESSIVE \<mapsto> clamped (current m AGGRESSIVE + 0.05))))"
proof -
  let ?m0 = "map (\<lambda>t. (tag t, weight t)) (tendency world)"
  have merged: "fold mergeTendency (tendency world) [] = ?m0"
    using fold_mergeTendency [OF assms(1), of "[]"] by simp
  have b0: "weightsBounded ?m0"
    using assms(2) by (auto simp: weightsBounded_def)
  have empty: "cs = [] \<longrightarrow> applyChronicleTendency world cs = world"
    by (simp add: applyChronicleTendency_def)
  have nonempty: "cs \<noteq> [] \<longrightarrow>
                applyChronicleTendency world cs
                  = world\<lparr> tendency :=
                      map (\<lambda>(tg, w). \<lparr> tag = tg, weight = w \<rparr>) (fold tendencyStep cs ?m0) \<rparr>"
    by (simp add: applyChronicleTendency_def merged Let_def)
  have bounded: "\<forall>t \<in> set (tendency (applyChronicleTendency world cs)).
                 - 0.6 \<le> weight t \<and> weight t \<le> 0.6"
  proof (cases "cs = []")
    case True
    then show ?thesis using empty assms(2) by simp
  next
    case False
    have "weightsBounded (fold tendencyStep cs ?m0)"
      using b0 by (rule fold_tendencyStep_bounded)
    then show ?thesis
      using False nonempty by (auto simp: weightsBounded_def)
  qed
  have fear: "map_of (tendencyStep c m)
                  = (map_of m)(RISKY \<mapsto> max (- 0.6) (min 0.6
                        ((case map_of m RISKY of None \<Rightarrow> 0 | Some w \<Rightarrow> w) - 0.10)),
                      SAFE \<mapsto> max (- 0.6) (min 0.6
                        ((case map_of m SAFE of None \<Rightarrow> 0 | Some w \<Rightarrow> w) + 0.08)))"
    if "summary c = ''An era shaped by '' @ toLowerCase (meaningKey FEAR) @ ''.''"
    for c :: ChronicleEntry and m
  proof -
    from that have "summary c = ''An era shaped by fear.''"
      by (simp add: toLowerCase_def lowerChar_def)
    then show ?thesis by (simp add: tendencyStep_fear map_of_adjust)
  qed
  have trust: "map_of (tendencyStep c m)
                  = (map_of m)(SOCIAL \<mapsto> max (- 0.6) (min 0.6
                        ((case map_of m SOCIAL of None \<Rightarrow> 0 | Some w \<Rightarrow> w) + 0.08)),
                      PASSIVE \<mapsto> max (- 0.6) (min 0.6
                        ((case map_of m PASSIVE of None \<Rightarrow> 0 | Some w \<Rightarrow> w) - 0.04)))"
    if "summary c = ''An era shaped by '' @ toLowerCase (meaningKey TRUST) @ ''.''"
    for c :: ChronicleEntry and m
  proof -
    from that have "summary c = ''An era shaped by trust.''"
      by (simp add: toLowerCase_def lowerChar_def)
    then show ?thesis by (simp add: tendencyStep_trust map_of_adjust)
  qed
  have respect: "map_of (tendencyStep c m)
                  = (map_of m)(AGGRESSIVE \<mapsto> max (- 0.6) (min 0.6
                        ((case map_of m AGGRESSIVE of None \<Rightarrow> 0 | Some w \<Rightarrow> w) + 0.05)))"
    if "summary c = ''An era shaped by '' @ toLowerCase (meaningKey RESPECT) @ ''.''"
    for c :: ChronicleEntry and m
  proof -
    from that have "summary c = ''An era shaped by respect.''"
      by (simp add: toLowerCase_def lowerChar_def)
    then show ?thesis by (simp add: tendencyStep_respect map_of_adjust)
  qed
  show ?thesis
    unfolding Let_def using bounded empty nonempty fear trust respect by blast
qed

theorem applyChronicleTendency_bounded_witness:
  "distinct (map tag (tendency waryWorld))
   \<and> map weight (tendency waryWorld) = [- 0.55]
   \<and> tendency (applyChronicleTendency waryWorld [fearChronicle])
       = [\<lparr> tag = RISKY, weight = - 0.6 \<rparr>, \<lparr> tag = SAFE, weight = 0.08 \<rparr>]"
proof -
  have d: "distinct (map tag (tendency waryWorld))"
    by (simp add: waryWorld_def initialWorld_def)
  have w: "map weight (tendency waryWorld) = [- 0.55]"
    by (simp add: waryWorld_def initialWorld_def)
  have r: "\<forall>t \<in> set (tendency waryWorld). - 0.6 \<le> weight t \<and> weight t \<le> 0.6"
    by (simp add: waryWorld_def initialWorld_def)
  have s: "tendencyStep fearChronicle [(RISKY, - 0.55)] = [(RISKY, - 0.6), (SAFE, 0.08)]"
    by (simp add: tendencyStep_fear fearChronicle_def adjust_def TENDENCY_MIN_def TENDENCY_MAX_def)
  from applyChronicleTendency_bounded [OF d r, of "[fearChronicle]"]
  have e: "applyChronicleTendency waryWorld [fearChronicle]
              = waryWorld\<lparr> tendency :=
                  map (\<lambda>(tg, w). \<lparr> tag = tg, weight = w \<rparr>)
                    (fold tendencyStep [fearChronicle]
                       (map (\<lambda>t. (tag t, weight t)) (tendency waryWorld))) \<rparr>"
    unfolding Let_def by simp
  have "tendency (applyChronicleTendency waryWorld [fearChronicle])
       = [\<lparr> tag = RISKY, weight = - 0.6 \<rparr>, \<lparr> tag = SAFE, weight = 0.08 \<rparr>]"
    unfolding e using s by (simp add: waryWorld_def initialWorld_def)
  with d w show ?thesis by simp
qed

section \<open>Turn orchestrator\<close>

lemma simulateTurn_logs:
  "logs_turn (fst (simulateTurn amb n w acts eng)) = fst (mapAmbient (executeAction amb) n acts)"
  by (simp add: simulateTurn_def Let_def split: prod.splits)

lemma simulateTurn_meanings:
  "meanings_turn (fst (simulateTurn amb n w acts eng))
     = fst (evaluate eng amb (snd (mapAmbient (executeAction amb) n acts))
              (fst (mapAmbient (executeAction amb) n acts)))"
  by (simp add: simulateTurn_def Let_def split: prod.splits)

text \<open>
  Claim C6. The claim asks that the log of an action keeps the action's \<open>actorId\<close>,
  \<open>targetId\<close>, \<open>type\<close> and \<open>tags\<close>. \<open>executeAction\<close> keeps the actor, the type and the
  tags, and gives every log an absent \<open>targetId\<close>: for the proposal of \<open>npc-1\<close> to speak
  to \<open>npc-2\<close>, the log that \<open>simulateTurn\<close> returns has no target.
\<close>

theorem executeAction_drops_targetId:
  "map actorId (logs_turn (fst (simulateTurn amb n w acts eng))) = map actorId acts
   \<and> map type_action (logs_turn (fst (simulateTurn amb n w acts eng))) = map type_action acts
   \<and> map tags (logs_turn (fst (simulateTurn amb n w acts eng))) = map tags acts
   \<and> map targetId (logs_turn (fst (simulateTurn amb n w acts eng))) = map (\<lambda>a. None) acts
   \<and> targetId speakAction = Some ''npc-2''
   \<and> map targetId (logs_turn (fst (simulateTurn amb n w [speakAction] eng))) = [None]"
proof -
  have a: "map actorId (fst (mapAmbient (executeAction amb) n acts)) = map actorId acts"
    by (rule mapAmbient_map) (simp add: executeAction_def)
  have t: "map type_action (fst (mapAmbient (executeAction amb) n acts)) = map type_action acts"
    by (rule mapAmbient_map) (simp add: executeAction_def)
  have g: "map tags (fst (mapAmbient (executeAction amb) n acts)) = map tags acts"
    by (rule mapAmbient_map) (simp add: executeAction_def)
  have d: "map targetId (fst (mapAmbient (executeAction amb) n xs)) = map (\<lambda>a. None) xs" for xs
    by (rule mapAmbient_map) (simp add: executeAction_def)
  have s: "targetId speakAction = Some ''npc-2''" by (simp add: speakAction_def)
  show ?thesis
    using a t g d [of acts] d [of "[speakAction]"] s by (simp add: simulateTurn_logs)
qed

lemma generateEchoes_ttl: "map ttl (fst (generateEchoes amb n ms)) = map (\<lambda>m. 3) ms"
  unfolding generateEchoes_def by (rule mapAmbient_map) simp

lemma generateEchoes_origin:
  "map originMeaningId (fst (generateEchoes amb n ms)) = map id_meaning ms"
  unfolding generateEchoes_def by (rule mapAmbient_map) simp

lemma all_ttl_three:
  assumes "map ttl s = map (\<lambda>m. 3) ms"
  shows "\<forall>e \<in> set s. ttl e = 3"
proof
  fix e assume "e \<in> set s"
  then have "ttl e \<in> set (map ttl s)" by simp
  then show "ttl e = 3" unfolding assms by auto
qed

lemma updateEchoTTL_append: "updateEchoTTL (xs @ ys) = updateEchoTTL xs @ updateEchoTTL ys"
  by (simp add: updateEchoTTL_def)

lemma updateEchoTTL_positive: "e \<in> set (updateEchoTTL es) \<Longrightarrow> 1 \<le> ttl e"
  by (auto simp: updateEchoTTL_def)

lemma updateEchoTTL_fresh:
  assumes "\<forall>e \<in> set es. ttl e = 3"
  shows "updateEchoTTL es = map (\<lambda>e. e\<lparr> ttl := 2 \<rparr>) es"
  using assms by (induction es) (auto simp: updateEchoTTL_def)

lemma updateEchoTTL_second:
  "updateEchoTTL (map (\<lambda>e. e\<lparr> ttl := 2 \<rparr>) es) = map (\<lambda>e. e\<lparr> ttl := 1 \<rparr>) es"
  by (induction es) (auto simp: updateEchoTTL_def)

lemma updateEchoTTL_third:
  "updateEchoTTL (map (\<lambda>e. e\<lparr> ttl := 1 \<rparr>) es) = []"
  by (induction es) (auto simp: updateEchoTTL_def)

lemma echoes_applyChronicleTendency: "echoes (applyChronicleTendency w cs) = echoes w"
  by (simp add: applyChronicleTendency_def Let_def)

lemma echoes_generateChronicle:
  "echoes (world_result (fst (generateChronicleFromPressure amb n w))) = echoes w"
  by (simp add: generateChronicleFromPressure_def split: prod.splits)

lemma simulateTurn_echoes:
  "\<exists>s. map ttl s = map (\<lambda>m. 3) (meanings_turn (fst (simulateTurn amb n w acts eng)))
      \<and> map originMeaningId s = map id_meaning (meanings_turn (fst (simulateTurn amb n w acts eng)))
      \<and> echoes (world_turn (fst (simulateTurn amb n w acts eng)))
          = updateEchoTTL (echoes w) @ map (\<lambda>e. e\<lparr> ttl := 2 \<rparr>) s"
proof -
  obtain ls n1 where a: "mapAmbient (executeAction amb) n acts = (ls, n1)"
    by (cases "mapAmbient (executeAction amb) n acts")
  obtain ms n2 where b: "evaluate eng amb n1 ls = (ms, n2)"
    by (cases "evaluate eng amb n1 ls")
  obtain cr n3 where c: "generateChronicleFromPressure amb n2
             (applyEchoToPressure (accumulateMeaningPressure w ms)) = (cr, n3)"
    by (cases "generateChronicleFromPressure amb n2
             (applyEchoToPressure (accumulateMeaningPressure w ms))")
  obtain es n4 where d: "generateEchoes amb n3 ms = (es, n4)"
    by (cases "generateEchoes amb n3 ms")
  have m: "meanings_turn (fst (simulateTurn amb n w acts eng)) = ms"
    by (simp add: simulateTurn_def a b c d Let_def)
  have "echoes (world_result cr) = echoes w"
    using echoes_generateChronicle [of amb n2 "applyEchoToPressure (accumulateMeaningPressure w ms)"] c
    by (simp add: applyEchoToPressure_def accumulateMeaningPressure_def)
  then have e: "echoes (world_turn (fst (simulateTurn amb n w acts eng)))
          = updateEchoTTL (echoes w) @ updateEchoTTL es"
    by (simp add: simulateTurn_def a b c d Let_def updateEchoTTL_append
          echoes_applyChronicleTendency)
  have t: "map ttl es = map (\<lambda>m. 3) ms" using generateEchoes_ttl [of amb n3 ms] d by simp
  have f: "updateEchoTTL es = map (\<lambda>e. e\<lparr> ttl := 2 \<rparr>) es"
    using all_ttl_three [OF t] by (rule updateEchoTTL_fresh)
  have o: "map originMeaningId es = map id_meaning ms"
    using generateEchoes_origin [of amb n3 ms] d by simp
  show ?thesis using m e t f o by auto
qed

lemma sample_logs:
  "mapAmbient (executeAction fixedAmbient) 0 sampleActions =
  ([\<lparr> actorId = ''npc-1'', targetId = None, type_action = MOVE, tags = [RISKY],
      id_log = ''00000000-0000-4000-8000-000000000000'', timestamp = 1700000000000 \<rparr>,
    \<lparr> actorId = ''npc-2'', targetId = None, type_action = WAIT, tags = [SAFE],
      id_log = ''00000000-0000-4000-8000-000000000000'', timestamp = 1700000000000 \<rparr>], 4)"
  by (simp add: sampleActions_def executeAction_def fixedAmbient_def)

lemma sample_meanings:
  "evaluate defaultEngine fixedAmbient 4
  [\<lparr> actorId = ''npc-1'', targetId = None, type_action = MOVE, tags = [RISKY],
      id_log = ''00000000-0000-4000-8000-000000000000'', timestamp = 1700000000000 \<rparr>,
    \<lparr> actorId = ''npc-2'', targetId = None, type_action = WAIT, tags = [SAFE],
      id_log = ''00000000-0000-4000-8000-000000000000'', timestamp = 1700000000000 \<rparr>]
  = ([\<lparr> id_meaning = ''00000000-0000-4000-8000-000000000000'',
        sourceLogIds = [''00000000-0000-4000-8000-000000000000''],
        type_meaning = FEAR, intensity = 0.4,
        audience = \<lparr> factionIds = None, locationIds = Some [''LOCAL''] \<rparr> \<rparr>], 5)"
  by (simp add: defaultEngine_def register_def
      evaluate_def FearPlugin_def TrustPlugin_def RespectPlugin_def fixedAmbient_def)

text \<open>
  Claim C10. With a time-to-live that counts whole turns, every echo of the world that
  \<open>simulateTurn\<close> returns has \<open>ttl\<close> at least 1. The echoes of the returned world are the
  aged survivors of the old echoes followed by one echo per meaning event of this turn,
  created with \<open>ttl\<close> 3 and already aged to 2. Over three successive turns, whatever the
  actions and plugins: the echoes spawned in the first turn are in its world with \<open>ttl\<close> 2,
  in the second turn's world with \<open>ttl\<close> 1, and gone from the third turn's world.
\<close>

theorem simulateTurn_echo_lifetime:
  "(let t1 = simulateTurn amb n w a1 g1;
        t2 = simulateTurn amb (snd t1) (world_turn (fst t1)) a2 g2;
        t3 = simulateTurn amb (snd t2) (world_turn (fst t2)) a3 g3
    in (\<forall>e \<in> set (echoes (world_turn (fst t1))). 1 \<le> ttl e)
     \<and> (\<exists>s1 s2 s3.
           map originMeaningId s1 = map id_meaning (meanings_turn (fst t1))
         \<and> map originMeaningId s2 = map id_meaning (meanings_turn (fst t2))
         \<and> map originMeaningId s3 = map id_meaning (meanings_turn (fst t3))
         \<and> (\<forall>e \<in> set (s1 @ s2 @ s3). ttl e = 3)
         \<and> echoes (world_turn (fst t1))
             = updateEchoTTL (echoes w) @ map (\<lambda>e. e\<lparr> ttl := 2 \<rparr>) s1
         \<and> echoes (world_turn (fst t2))
             = updateEchoTTL (updateEchoTTL (echoes w))
               @ map (\<lambda>e. e\<lparr> ttl := 1 \<rparr>) s1 @ map (\<lambda>e. e\<lparr> ttl := 2 \<rparr>) s2
         \<and> echoes (world_turn (fst t3))
             = updateEchoTTL (updateEchoTTL (updateEchoTTL (echoes w)))
               @ map (\<lambda>e. e\<lparr> ttl := 1 \<rparr>) s2 @ map (\<lambda>e. e\<lparr> ttl := 2 \<rparr>) s3))"
proof -
  define t1 where "t1 = simulateTurn amb n w a1 g1"
  define t2 where "t2 = simulateTurn amb (snd t1) (world_turn (fst t1)) a2 g2"
  define t3 where "t3 = simulateTurn amb (snd t2) (world_turn (fst t2)) a3 g3"
  obtain s1 where s1: "map ttl s1 = map (\<lambda>m. 3) (meanings_turn (fst t1))"
      "map originMeaningId s1 = map id_meaning (meanings_turn (fst t1))"
      "echoes (world_turn (fst t1)) = updateEchoTTL (echoes w) @ map (\<lambda>e. e\<lparr> ttl := 2 \<rparr>) s1"
    using simulateTurn_echoes [of amb n w a1 g1] unfolding t1_def by blast
  obtain s2 where s2: "map ttl s2 = map (\<lambda>m. 3) (meanings_turn (fst t2))"
      "map originMeaningId s2 = map id_meaning (meanings_turn (fst t2))"
      "echoes (world_turn (fst t2))
         = updateEchoTTL (echoes (world_turn (fst t1))) @ map (\<lambda>e. e\<lparr> ttl := 2 \<rparr>) s2"
    using simulateTurn_echoes [of amb "snd t1" "world_turn (fst t1)" a2 g2] unfolding t2_def by blast
  obtain s3 where s3: "map ttl s3 = map (\<lambda>m. 3) (meanings_turn (fst t3))"
      "map originMeaningId s3 = map id_meaning (meanings_turn (fst t3))"
      "echoes (world_turn (fst t3))
         = updateEchoTTL (echoes (world_turn (fst t2))) @ map (\<lambda>e. e\<lparr> ttl := 2 \<rparr>) s3"
    using simulateTurn_echoes [of amb "snd t2" "world_turn (fst t2)" a3 g3] unfolding t3_def by blast
  have e2: "echoes (world_turn (fst t2))
             = updateEchoTTL (updateEchoTTL (echoes w))
               @ map (\<lambda>e. e\<lparr> ttl := 1 \<rparr>) s1 @ map (\<lambda>e. e\<lparr> ttl := 2 \<rparr>) s2"
    by (simp add: s2(3) s1(3) updateEchoTTL_append updateEchoTTL_second)
  have e3: "echoes (world_turn (fst t3))
             = updateEchoTTL (updateEchoTTL (updateEchoTTL (echoes w)))
               @ map (\<lambda>e. e\<lparr> ttl := 1 \<rparr>) s2 @ map (\<lambda>e. e\<lparr> ttl := 2 \<rparr>) s3"
    by (simp add: s3(3) e2 updateEchoTTL_append updateEchoTTL_second updateEchoTTL_third)
  have fresh: "\<forall>e \<in> set (s1 @ s2 @ s3). ttl e = 3"
    using all_ttl_three [OF s1(1)] all_ttl_three [OF s2(1)] all_ttl_three [OF s3(1)] by auto
  have live: "\<forall>e \<in> set (echoes (world_turn (fst t1))). 1 \<le> ttl e"
    unfolding s1(3) using updateEchoTTL_positive by auto
  have "(\<forall>e \<in> set (echoes (world_turn (fst t1))). 1 \<le> ttl e)
     \<and> (\<exists>s1 s2 s3.
           map originMeaningId s1 = map id_meaning (meanings_turn (fst t1))
         \<and> map originMeaningId s2 = map id_meaning (meanings_turn (fst t2))
         \<and> map originMeaningId s3 = map id_meaning (meanings_turn (fst t3))
         \<and> (\<forall>e \<in> set (s1 @ s2 @ s3). ttl e = 3)
         \<and> echoes (world_turn (fst t1))
             = updateEchoTTL (echoes w) @ map (\<lambda>e. e\<lparr> ttl := 2 \<rparr>) s1
         \<and> echoes (world_turn (fst t2))
             = updateEchoTTL (updateEchoTTL (echoes w))
               @ map (\<lambda>e. e\<lparr> ttl := 1 \<rparr>) s1 @ map (\<lambda>e. e\<lparr> ttl := 2 \<rparr>) s2
         \<and> echoes (world_turn (fst t3))
             = updateEchoTTL (updateEchoTTL (updateEchoTTL (echoes w)))
               @ map (\<lambda>e. e\<lparr> ttl := 1 \<rparr>) s2 @ map (\<lambda>e. e\<lparr> ttl := 2 \<rparr>) s3)"
    using live s1(2) s2(2) s3(2) fresh s1(3) e2 e3 by blast
  then show ?thesis
    unfolding Let_def t1_def t2_def t3_def .
qed

theorem simulateTurn_echo_lifetime_witness:
  "map ttl (echoes (world_turn
      (fst (simulateTurn fixedAmbient 0 initialWorld sampleActions defaultEngine)))) = [2]
   \<and> map ttl (echoes (world_turn
      (fst (simulateTurn fixedAmbient 7 (world_turn
         (fst (simulateTurn fixedAmbient 0 initialWorld sampleActions defaultEngine)))
         [] defaultEngine)))) = [1]"
proof -
  let ?t1 = "simulateTurn fixedAmbient 0 initialWorld sampleActions defaultEngine"
  let ?t2 = "simulateTurn fixedAmbient (snd ?t1) (world_turn (fst ?t1)) [] defaultEngine"
  have m: "length (meanings_turn (fst ?t1)) = 1"
    by (simp add: simulateTurn_meanings sample_logs sample_meanings)
  have m2: "meanings_turn (fst (simulateTurn fixedAmbient k w [] defaultEngine)) = []" for k w
    by (simp add: simulateTurn_meanings evaluate_def defaultEngine_def register_def
          FearPlugin_def TrustPlugin_def RespectPlugin_def)
  from simulateTurn_echo_lifetime [of fixedAmbient 0 initialWorld sampleActions defaultEngine
        "[]" defaultEngine "[]" defaultEngine]
  obtain s1 s2 where o: "map originMeaningId s1 = map id_meaning (meanings_turn (fst ?t1))"
    and o2: "map originMeaningId s2 = map id_meaning (meanings_turn (fst ?t2))"
    and e: "echoes (world_turn (fst ?t1))
             = updateEchoTTL (echoes initialWorld) @ map (\<lambda>e. e\<lparr> ttl := 2 \<rparr>) s1"
    and e2: "echoes (world_turn (fst ?t2))
             = updateEchoTTL (updateEchoTTL (echoes initialWorld))
               @ map (\<lambda>e. e\<lparr> ttl := 1 \<rparr>) s1 @ map (\<lambda>e. e\<lparr> ttl := 2 \<rparr>) s2"
    unfolding Let_def by blast
  from o m have "length s1 = 1" by (metis length_map)
  then obtain x where x: "s1 = [x]" by (cases s1) auto
  have "s2 = []" using o2 by (simp add: m2)
  have i: "echoes initialWorld = []" by (simp add: initialWorld_def)
  have c: "snd ?t1 = 7"
    by (simp add: simulateTurn_def sample_logs sample_meanings Let_def
          generateChronicleFromPressure_def chronicleStep_def accumulateMeaningPressure_def
          accumulateStep_def applyEchoToPressure_def echoStep_def echoEntryStep_def
          initialWorld_def CHRONICLE_THRESHOLD_def generateEchoes_def split: prod.splits)
  have "map ttl (echoes (world_turn (fst ?t1))) = [2]"
    using x i by (simp add: e updateEchoTTL_def)
  moreover have "map ttl (echoes (world_turn (fst ?t2))) = [1]"
    using x i \<open>s2 = []\<close> by (simp add: e2 updateEchoTTL_def)
  ultimately show ?thesis using c by simp
qed

text \<open>
  A turn keeps the pressure object free of repeated keys, and the initial world has none.
\<close>

lemma fold_accumulate_distinct:
  "distinct (map fst p) \<Longrightarrow> distinct (map fst (fold accumulateStep ms p))"
  by (induction ms arbitrary: p) (simp_all add: accumulateStep_def distinct_update)

lemma fold_echoStep_keys:
  "distinct (map fst p) \<Longrightarrow> map fst (fold echoStep es p) = map fst p"
  by (induction es arbitrary: p) (simp_all add: echoStep_keys)

lemma relieve_keys: "map fst (map (relieve world) p) = map fst p"
  by (induction p) (simp_all add: relieve_def)

lemma pressureKeysDistinct_simulateTurn:
  assumes "pressureKeysDistinct world"
  shows "pressureKeysDistinct (world_turn (fst (simulateTurn amb n world acts eng)))"
proof -
  obtain ls n1 where a: "mapAmbient (executeAction amb) n acts = (ls, n1)"
    by (cases "mapAmbient (executeAction amb) n acts")
  obtain ms n2 where b: "evaluate eng amb n1 ls = (ms, n2)"
    by (cases "evaluate eng amb n1 ls")
  let ?w = "applyEchoToPressure (accumulateMeaningPressure world ms)"
  obtain cr n3 where c: "generateChronicleFromPressure amb n2 ?w = (cr, n3)"
    by (cases "generateChronicleFromPressure amb n2 ?w")
  obtain es n4 where d: "generateEchoes amb n3 ms = (es, n4)"
    by (cases "generateEchoes amb n3 ms")
  have acc: "distinct (map fst (fold accumulateStep ms (meaningPressure world)))"
    using assms by (simp add: pressureKeysDistinct_def fold_accumulate_distinct)
  have dw: "distinct (map fst (meaningPressure ?w))"
    using acc by (simp add: applyEchoToPressure_def accumulateMeaningPressure_def fold_echoStep_keys)
  have "meaningPressure (world_result cr) = map (relieve ?w) (meaningPressure ?w)"
    using generateChronicle_closed_form [OF dw, of amb n2] c by simp
  then have "map fst (meaningPressure (world_result cr)) = map fst (meaningPressure ?w)"
    using relieve_keys [of ?w "meaningPressure ?w"] by simp
  then have "distinct (map fst (meaningPressure (world_result cr)))"
    using dw by simp
  moreover have "meaningPressure (world_turn (fst (simulateTurn amb n world acts eng)))
          = meaningPressure (world_result cr)"
    by (simp add: simulateTurn_def a b c d Let_def applyChronicleTendency_def)
  ultimately show ?thesis by (simp add: pressureKeysDistinct_def)
qed

lemma pressureKeysDistinct_initial: "pressureKeysDistinct initialWorld"
  by (simp add: pressureKeysDistinct_def initialWorld_def)

section \<open>Relationship upkeep\<close>

text \<open>The sample graphs are graphs the module builds.\<close>

lemma staleGraph_built:
  "staleGraph = addCharacterNode
     (upsertRelationship createEmptySocialGraph ''a'' ''b''
        \<lparr> trust_delta = Some 0.5, intimacy_delta = Some 0.25 \<rparr> 1) ''a''"
  by (simp add: staleGraph_def addCharacterNode_def upsertRelationship_def
        createEmptySocialGraph_def createRelationshipId_def clamp_def Let_def)

lemma linkedGraph_built:
  "linkedGraph = upsertRelationship (addCharacterNode createEmptySocialGraph ''a'') ''a'' ''b''
        \<lparr> trust_delta = Some 0.5, intimacy_delta = Some 0.25 \<rparr> 1"
  by (simp add: linkedGraph_def addCharacterNode_def upsertRelationship_def
        createEmptySocialGraph_def createRelationshipId_def clamp_def Let_def)

text \<open>
  Claim C7, as the claim states it: with both deltas zero only the last-interaction turn
  of the edge changes. On \<open>staleGraph\<close> the call also raises the interaction count from 1
  to 2 and adds the edge to the outgoing list of node \<open>a\<close>.
\<close>

theorem upsertRelationship_zero_delta_counterexample:
  "upsertRelationship staleGraph ''a'' ''b'' \<lparr> trust_delta = Some 0, intimacy_delta = Some 0 \<rparr> 2
     = \<lparr> nodes = [(''a'', \<lparr> id_node = ''a'', outgoingRelations = [''a->b''],
                             incomingRelations = [] \<rparr>)],
         relationships =
           [(''a->b'', \<lparr> sourceId = ''a'', targetId_rel = ''b'', trust = 0.5, intimacy = 0.25,
                          interactions = 2, lastInteractionTurn = 2 \<rparr>)] \<rparr>
   \<and> staleGraph
     = \<lparr> nodes = [(''a'', \<lparr> id_node = ''a'', outgoingRelations = [], incomingRelations = [] \<rparr>)],
         relationships =
           [(''a->b'', \<lparr> sourceId = ''a'', targetId_rel = ''b'', trust = 0.5, intimacy = 0.25,
                          interactions = 1, lastInteractionTurn = 1 \<rparr>)] \<rparr>"
  by (simp add: upsertRelationship_def staleGraph_def createRelationshipId_def clamp_def Let_def)

text \<open>
  Claim C7, amended. For a graph that holds the edge from source to target, with trust in
  \<open>[-1, 1]\<close> and intimacy in \<open>[0, 1]\<close>, \<open>upsertRelationship\<close> with both deltas zero (or
  absent) keeps the edge's trust and intimacy, sets its last-interaction turn to the
  current turn and adds one to its interaction count; the edge keeps its place and every
  other edge is unchanged; and the nodes are unchanged when the source node, if there is
  one, already lists the edge as outgoing and the target node, if there is one, already
  lists it as incoming.
\<close>

theorem upsertRelationship_zero_delta:
  assumes "map_of (relationships graph) (createRelationshipId source target) = Some rel"
    and "trust_delta delta = None \<or> trust_delta delta = Some 0"
    and "intimacy_delta delta = None \<or> intimacy_delta delta = Some 0"
    and "- 1 \<le> trust rel \<and> trust rel \<le> 1 \<and> 0 \<le> intimacy rel \<and> intimacy rel \<le> 1"
  shows "relationships (upsertRelationship graph source target delta currentTurn)
           = AList.update (createRelationshipId source target)
               (rel\<lparr> interactions := interactions rel + 1, lastInteractionTurn := currentTurn \<rparr>)
               (relationships graph)
       \<and> ((\<forall>node. map_of (nodes graph) source = Some node
               \<longrightarrow> createRelationshipId source target \<in> set (outgoingRelations node))
          \<and> (\<forall>node. map_of (nodes graph) target = Some node
               \<longrightarrow> createRelationshipId source target \<in> set (incomingRelations node))
          \<longrightarrow> nodes (upsertRelationship graph source target delta currentTurn) = nodes graph)"
proof -
  have dt: "(case trust_delta delta of None \<Rightarrow> 0 | Some d \<Rightarrow> d) = 0"
    using assms(2) by auto
  have di: "(case intimacy_delta delta of None \<Rightarrow> 0 | Some d \<Rightarrow> d) = 0"
    using assms(3) by auto
  have ct: "clamp (trust rel) (-1) 1 = trust rel" using assms(4) by (simp add: clamp_def)
  have ci: "clamp (intimacy rel) 0 1 = intimacy rel" using assms(4) by (simp add: clamp_def)
  have rels: "relationships (upsertRelationship graph source target delta currentTurn)
           = AList.update (createRelationshipId source target)
               (rel\<lparr> interactions := interactions rel + 1, lastInteractionTurn := currentTurn \<rparr>)
               (relationships graph)"
    by (simp add: upsertRelationship_def Let_def assms(1) dt di ct ci)
  have nds: "nodes (upsertRelationship graph source target delta currentTurn) = nodes graph"
    if "\<forall>node. map_of (nodes graph) source = Some node
               \<longrightarrow> createRelationshipId source target \<in> set (outgoingRelations node)"
       "\<forall>node. map_of (nodes graph) target = Some node
               \<longrightarrow> createRelationshipId source target \<in> set (incomingRelations node)"
    using that by (auto simp: upsertRelationship_def Let_def split: option.splits)
  show ?thesis using rels nds by blast
qed

theorem upsertRelationship_zero_delta_witness:
  "map_of (relationships linkedGraph) (createRelationshipId ''a'' ''b'')
     = Some \<lparr> sourceId = ''a'', targetId_rel = ''b'', trust = 0.5, intimacy = 0.25,
              interactions = 1, lastInteractionTurn = 1 \<rparr>
   \<and> upsertRelationship linkedGraph ''a'' ''b'' \<lparr> trust_delta = Some 0, intimacy_delta = None \<rparr> 7
     = \<lparr> nodes = nodes linkedGraph,
         relationships =
           [(''a->b'', \<lparr> sourceId = ''a'', targetId_rel = ''b'', trust = 0.5, intimacy = 0.25,
                          interactions = 2, lastInteractionTurn = 7 \<rparr>)] \<rparr>"
proof -
  let ?rel = "\<lparr> sourceId = ''a'', targetId_rel = ''b'', trust = 0.5, intimacy = 0.25,
              interactions = 1, lastInteractionTurn = 1 \<rparr>"
  let ?delta = "\<lparr> trust_delta = Some 0, intimacy_delta = None \<rparr>"
  have e: "map_of (relationships linkedGraph) (createRelationshipId ''a'' ''b'') = Some ?rel"
    by (simp add: linkedGraph_def createRelationshipId_def)
  have t: "trust_delta ?delta = None \<or> trust_delta ?delta = Some 0" by simp
  have i: "intimacy_delta ?delta = None \<or> intimacy_delta ?delta = Some 0" by simp
  have r: "- 1 \<le> trust ?rel \<and> trust ?rel \<le> 1 \<and> 0 \<le> intimacy ?rel \<and> intimacy ?rel \<le> 1"
    by simp
  have o: "\<forall>node. map_of (nodes linkedGraph) ''a'' = Some node
               \<longrightarrow> createRelationshipId ''a'' ''b'' \<in> set (outgoingRelations node)"
    by (simp add: linkedGraph_def createRelationshipId_def)
  have n: "\<forall>node. map_of (nodes linkedGraph) ''b'' = Some node
               \<longrightarrow> createRelationshipId ''a'' ''b'' \<in> set (incomingRelations node)"
    by (simp add: linkedGraph_def)
  from upsertRelationship_zero_delta [OF e t i r, of 7] o n
  have "relationships (upsertRelationship linkedGraph ''a'' ''b'' ?delta 7)
           = AList.update (createRelationshipId ''a'' ''b'')
               (?rel\<lparr> interactions := interactions ?rel + 1, lastInteractionTurn := 7 \<rparr>)
               (relationships linkedGraph)"
    and "nodes (upsertRelationship linkedGraph ''a'' ''b'' ?delta 7) = nodes linkedGraph"
    by blast+
  then have "upsertRelationship linkedGraph ''a'' ''b'' ?delta 7
     = \<lparr> nodes = nodes linkedGraph,
         relationships =
           [(''a->b'', \<lparr> sourceId = ''a'', targetId_rel = ''b'', trust = 0.5, intimacy = 0.25,
                          interactions = 2, lastInteractionTurn = 7 \<rparr>)] \<rparr>"
    by (cases "upsertRelationship linkedGraph ''a'' ''b'' ?delta 7")
       (simp add: linkedGraph_def createRelationshipId_def)
  with e show ?thesis by simp
qed

lemma decayRelationships_map:
  assumes "distinct (map fst (relationships graph))"
  shows "relationships (decayRelationships graph currentTurn)
           = map (\<lambda>kv. (fst kv, decayed currentTurn (snd kv))) (relationships graph)"
proof -
  have "decayStep currentTurn = (\<lambda>kv a. AList.update (fst kv) (decayed currentTurn (snd kv)) a)"
    by (auto simp: decayStep_def decayed_def fun_eq_iff Let_def split: prod.splits)
  then show ?thesis
    using fold_update_fresh [OF assms, of "[]" "decayed currentTurn"]
    by (simp add: decayRelationships_def)
qed

lemma decay_factor:
  fixes r :: real
  assumes "0 < r" "r \<le> 1" "0 \<le> d"
  shows "r powi d = r ^ nat d" "0 < r ^ nat d" "r ^ nat d \<le> 1"
  using assms by (simp_all add: power_int_def power_le_one)

lemma decayed_in_range:
  assumes "lastInteractionTurn rel \<le> currentTurn"
    and "- 1 \<le> trust rel" "trust rel \<le> 1" "0 \<le> intimacy rel" "intimacy rel \<le> 1"
  shows "decayed currentTurn rel =
           rel\<lparr> trust := trust rel * (1 - 0.02) ^ nat (currentTurn - lastInteractionTurn rel),
                intimacy := intimacy rel * (1 - 0.01) ^ nat (currentTurn - lastInteractionTurn rel) \<rparr>"
    and "sgn (trust rel * (1 - 0.02) ^ nat (currentTurn - lastInteractionTurn rel)) = sgn (trust rel)"
    and "\<bar>trust rel * (1 - 0.02) ^ nat (currentTurn - lastInteractionTurn rel)\<bar> \<le> \<bar>trust rel\<bar>"
    and "intimacy rel * (1 - 0.01) ^ nat (currentTurn - lastInteractionTurn rel) \<le> intimacy rel"
proof -
  let ?d = "currentTurn - lastInteractionTurn rel"
  have d: "0 \<le> ?d" using assms(1) by simp
  have t: "(1 - 0.02 :: real) powi ?d = (1 - 0.02) ^ nat ?d" "0 < (1 - 0.02 :: real) ^ nat ?d"
          "(1 - 0.02 :: real) ^ nat ?d \<le> 1"
    using decay_factor [of "1 - 0.02" ?d] d by simp_all
  have i: "(1 - 0.01 :: real) powi ?d = (1 - 0.01) ^ nat ?d" "0 < (1 - 0.01 :: real) ^ nat ?d"
          "(1 - 0.01 :: real) ^ nat ?d \<le> 1"
    using decay_factor [of "1 - 0.01" ?d] d by simp_all
  have abs_t: "\<bar>trust rel * (1 - 0.02) ^ nat ?d\<bar> \<le> \<bar>trust rel\<bar>"
    using t(2,3) by (simp add: abs_mult mult_left_le)
  show "\<bar>trust rel * (1 - 0.02) ^ nat ?d\<bar> \<le> \<bar>trust rel\<bar>" by (rule abs_t)
  show "sgn (trust rel * (1 - 0.02) ^ nat ?d) = sgn (trust rel)"
    using t(2) by (simp add: sgn_mult)
  show il: "intimacy rel * (1 - 0.01) ^ nat ?d \<le> intimacy rel"
    using i(2,3) assms(4) by (simp add: mult_left_le)
  have "\<bar>trust rel\<bar> \<le> 1" using assms(2,3) by simp
  with abs_t have "\<bar>trust rel * (1 - 0.02) ^ nat ?d\<bar> \<le> 1" by linarith
  then have ct: "clamp (trust rel * (1 - 0.02) ^ nat ?d) (-1) 1 = trust rel * (1 - 0.02) ^ nat ?d"
    by (simp add: clamp_def abs_le_iff)
  have "0 \<le> intimacy rel * (1 - 0.01) ^ nat ?d" using assms(4) i(2) by simp
  moreover have "intimacy rel * (1 - 0.01) ^ nat ?d \<le> 1" using il assms(5) by linarith
  ultimately have ci: "clamp (intimacy rel * (1 - 0.01) ^ nat ?d) 0 1 = intimacy rel * (1 - 0.01) ^ nat ?d"
    by (simp add: clamp_def)
  show "decayed currentTurn rel =
           rel\<lparr> trust := trust rel * (1 - 0.02) ^ nat ?d, intimacy := intimacy rel * (1 - 0.01) ^ nat ?d \<rparr>"
    using ct ci t(1) i(1)
    by (simp add: decayed_def TRUST_DECAY_RATE_def INTIMACY_DECAY_RATE_def)
qed


text \<open>
  Every graph built from the empty graph by \<open>addCharacterNode\<close>, \<open>upsertRelationship\<close>
  and \<open>decayRelationships\<close> holds each relationship id once and has its edges in range.
\<close>

lemma clamp_range: "lo \<le> hi \<Longrightarrow> lo \<le> clamp x lo hi \<and> clamp x lo hi \<le> hi"
  by (simp add: clamp_def)

lemma edgesInRange_empty: "edgesInRange createEmptySocialGraph"
  by (simp add: edgesInRange_def createEmptySocialGraph_def)

lemma edgesInRange_addCharacterNode:
  "edgesInRange graph \<Longrightarrow> edgesInRange (addCharacterNode graph c)"
  by (simp add: edgesInRange_def addCharacterNode_def)

lemma edgesInRange_upsert:
  assumes "edgesInRange graph"
  shows "edgesInRange (upsertRelationship graph source target delta currentTurn)"
proof -
  obtain newRel where rels: "relationships (upsertRelationship graph source target delta currentTurn)
      = AList.update (createRelationshipId source target) newRel (relationships graph)"
    and t: "- 1 \<le> trust newRel \<and> trust newRel \<le> 1"
    and i: "0 \<le> intimacy newRel \<and> intimacy newRel \<le> 1"
  proof (cases "map_of (relationships graph) (createRelationshipId source target)")
    case None
    show ?thesis
      by (rule that [of "\<lparr> sourceId = source, targetId_rel = target,
                   trust = clamp (case trust_delta delta of None \<Rightarrow> 0 | Some d \<Rightarrow> d) (-1) 1,
                   intimacy = clamp (case intimacy_delta delta of None \<Rightarrow> 0 | Some d \<Rightarrow> d) 0 1,
                   interactions = 1, lastInteractionTurn = currentTurn \<rparr>"])
         (simp_all add: upsertRelationship_def Let_def None clamp_range)
  next
    case (Some ex)
    show ?thesis
      by (rule that [of "ex\<lparr> trust := clamp (trust ex + (case trust_delta delta of None \<Rightarrow> 0 | Some d \<Rightarrow> d)) (-1) 1,
                     intimacy := clamp (intimacy ex
                                   + (case intimacy_delta delta of None \<Rightarrow> 0 | Some d \<Rightarrow> d)) 0 1,
                     interactions := interactions ex + 1,
                     lastInteractionTurn := currentTurn \<rparr>"])
         (simp_all add: upsertRelationship_def Let_def Some clamp_range)
  qed
  have d: "distinct (map fst (relationships (upsertRelationship graph source target delta currentTurn)))"
    unfolding rels using assms by (simp add: edgesInRange_def distinct_update)
  have "\<forall>kv \<in> set (relationships (upsertRelationship graph source target delta currentTurn)).
            - 1 \<le> trust (snd kv) \<and> trust (snd kv) \<le> 1
          \<and> 0 \<le> intimacy (snd kv) \<and> intimacy (snd kv) \<le> 1"
  proof
    fix kv assume "kv \<in> set (relationships (upsertRelationship graph source target delta currentTurn))"
    then have "kv = (createRelationshipId source target, newRel) \<or> kv \<in> set (relationships graph)"
      unfolding rels by (rule set_update_cases)
    then show "- 1 \<le> trust (snd kv) \<and> trust (snd kv) \<le> 1
          \<and> 0 \<le> intimacy (snd kv) \<and> intimacy (snd kv) \<le> 1"
      using t i assms by (auto simp: edgesInRange_def)
  qed
  with d show ?thesis by (simp add: edgesInRange_def)
qed

lemma edgesInRange_decay:
  assumes "edgesInRange graph"
  shows "edgesInRange (decayRelationships graph currentTurn)"
proof -
  have d: "distinct (map fst (relationships graph))" using assms by (simp add: edgesInRange_def)
  have "relationships (decayRelationships graph currentTurn)
           = map (\<lambda>kv. (fst kv, decayed currentTurn (snd kv))) (relationships graph)"
    by (rule decayRelationships_map [OF d])
  then show ?thesis
    using d by (auto simp: edgesInRange_def comp_def decayed_def clamp_range)
qed

text \<open>
  Claim C8. For a graph whose relationship table has each id once and whose edges have
  trust in \<open>[-1, 1]\<close> and intimacy in \<open>[0, 1]\<close> (as every graph the module builds has),
  and a current turn that is not before any edge's last interaction, \<open>decayRelationships\<close>
  changes nothing but the trust and the intimacy of each edge: the trust becomes
  \<open>trust * (1 - 0.02) ^ \<Delta>\<close> and the intimacy \<open>intimacy * (1 - 0.01) ^ \<Delta>\<close>, with \<open>\<Delta>\<close>
  the turns since the last interaction. The sign of the trust is kept, its magnitude does
  not grow, and the intimacy does not grow.
\<close>

theorem decayRelationships_exponential:
  assumes "distinct (map fst (relationships graph))"
    and "\<forall>kv \<in> set (relationships graph).
           lastInteractionTurn (snd kv) \<le> currentTurn
         \<and> - 1 \<le> trust (snd kv) \<and> trust (snd kv) \<le> 1
         \<and> 0 \<le> intimacy (snd kv) \<and> intimacy (snd kv) \<le> 1"
  shows "decayRelationships graph currentTurn
           = graph\<lparr> relationships :=
               map (\<lambda>(rid, rel).
                      (rid, rel\<lparr> trust := trust rel * (1 - 0.02)
                                            ^ nat (currentTurn - lastInteractionTurn rel),
                                  intimacy := intimacy rel * (1 - 0.01)
                                            ^ nat (currentTurn - lastInteractionTurn rel) \<rparr>))
                 (relationships graph) \<rparr>
       \<and> (\<forall>kv \<in> set (relationships graph).
             sgn (trust (snd kv) * (1 - 0.02) ^ nat (currentTurn - lastInteractionTurn (snd kv)))
               = sgn (trust (snd kv))
           \<and> \<bar>trust (snd kv) * (1 - 0.02) ^ nat (currentTurn - lastInteractionTurn (snd kv))\<bar>
               \<le> \<bar>trust (snd kv)\<bar>
           \<and> intimacy (snd kv) * (1 - 0.01) ^ nat (currentTurn - lastInteractionTurn (snd kv))
               \<le> intimacy (snd kv))"
proof -
  have each: "decayed currentTurn (snd kv)
           = (snd kv)\<lparr> trust := trust (snd kv) * (1 - 0.02)
                                   ^ nat (currentTurn - lastInteractionTurn (snd kv)),
                       intimacy := intimacy (snd kv) * (1 - 0.01)
                                   ^ nat (currentTurn - lastInteractionTurn (snd kv)) \<rparr>"
    if "kv \<in> set (relationships graph)" for kv
    using assms(2) that decayed_in_range(1) [of "snd kv" currentTurn] by blast
  have "map (\<lambda>kv. (fst kv, decayed currentTurn (snd kv))) (relationships graph)
          = map (\<lambda>(rid, rel).
                      (rid, rel\<lparr> trust := trust rel * (1 - 0.02)
                                            ^ nat (currentTurn - lastInteractionTurn rel),
                                  intimacy := intimacy rel * (1 - 0.01)
                                            ^ nat (currentTurn - lastInteractionTurn rel) \<rparr>))
                 (relationships graph)"
    using each by (intro map_cong) (auto simp: case_prod_beta)
  then have g: "decayRelationships graph currentTurn
           = graph\<lparr> relationships :=
               map (\<lambda>(rid, rel).
                      (rid, rel\<lparr> trust := trust rel * (1 - 0.02)
                                            ^ nat (currentTurn - lastInteractionTurn rel),
                                  intimacy := intimacy rel * (1 - 0.01)
                                            ^ nat (currentTurn - lastInteractionTurn rel) \<rparr>))
                 (relationships graph) \<rparr>"
    using decayRelationships_map [OF assms(1), of currentTurn]
    by (simp add: decayRelationships_def)
  have s: "\<forall>kv \<in> set (relationships graph).
             sgn (trust (snd kv) * (1 - 0.02) ^ nat (currentTurn - lastInteractionTurn (snd kv)))
               = sgn (trust (snd kv))
           \<and> \<bar>trust (snd kv) * (1 - 0.02) ^ nat (currentTurn - lastInteractionTurn (snd kv))\<bar>
               \<le> \<bar>trust (snd kv)\<bar>
           \<and> intimacy (snd kv) * (1 - 0.01) ^ nat (currentTurn - lastInteractionTurn (snd kv))
               \<le> intimacy (snd kv)"
    using assms(2) decayed_in_range(2,3,4) by blast
  show ?thesis using g s by (intro conjI)
qed

theorem decayRelationships_exponential_witness:
  "distinct (map fst (relationships linkedGraph))
   \<and> decayRelationships linkedGraph 3
     = linkedGraph\<lparr> relationships :=
         [(''a->b'', \<lparr> sourceId = ''a'', targetId_rel = ''b'', trust = 0.5 * 0.98 ^ 2,
                        intimacy = 0.25 * 0.99 ^ 2, interactions = 1,
                        lastInteractionTurn = 1 \<rparr>)] \<rparr>"
proof -
  have d: "distinct (map fst (relationships linkedGraph))" by (simp add: linkedGraph_def)
  have r: "\<forall>kv \<in> set (relationships linkedGraph).
           lastInteractionTurn (snd kv) \<le> 3
         \<and> - 1 \<le> trust (snd kv) \<and> trust (snd kv) \<le> 1
         \<and> 0 \<le> intimacy (snd kv) \<and> intimacy (snd kv) \<le> 1"
    by (simp add: linkedGraph_def)
  have "decayRelationships linkedGraph 3
     = linkedGraph\<lparr> relationships :=
         [(''a->b'', \<lparr> sourceId = ''a'', targetId_rel = ''b'', trust = 0.5 * 0.98 ^ 2,
                        intimacy = 0.25 * 0.99 ^ 2, interactions = 1,
                        lastInteractionTurn = 1 \<rparr>)] \<rparr>"
    using decayRelationships_exponential [OF d r]
    by (simp add: linkedGraph_def eval_nat_numeral)
  with d show ?thesis by simp
qed

section \<open>PageRank\<close>


lemma incomingSum_no_relationships:
  "relationships graph = [] \<Longrightarrow> incomingSum graph ranks rels s = Inr s"
  by (induction rels arbitrary: s) (simp_all add: contribution_def)

lemma single_round:
  assumes "nodes graph = [(nid, node)]" "relationships graph = []"
  shows "pageRankRound graph (Suc 0) ranks [nid] [] 0
           = Inr ([(nid, 0.15)], \<bar>0.15 - (case map_of ranks nid of None \<Rightarrow> 0 | Some r \<Rightarrow> r)\<bar>)"
  using assms
  by (simp add: incomingSum_no_relationships PAGERANK_DAMPING_def Let_def)

lemma single_node:
  assumes "nodes graph = [(nid, node)]" "relationships graph = []"
  shows "calculatePageRank graph = Inr [(nid, 0.15)]"
proof -
  have r1: "pageRankRound graph (Suc 0) [(nid, 1)] [nid] [] 0 = Inr ([(nid, 3 / 20)], 17 / 20)"
    using single_round [OF assms, of "[(nid, 1)]"] by simp
  have r2: "pageRankRound graph (Suc 0) [(nid, 3 / 20)] [nid] [] 0 = Inr ([(nid, 3 / 20)], 0)"
    using single_round [OF assms, of "[(nid, 3 / 20)]"] by simp
  have c: "commitRanks [(nid, 3 / 20)] [(nid, 1)] = [(nid, 3 / 20)]"
    by (simp add: commitRanks_def)
  have "pageRankLoop graph [nid] (Suc (Suc m)) [(nid, 1)] = Inr [(nid, 3 / 20)]" for m
    by (simp add: r1 r2 c PAGERANK_TOLERANCE_def del: pageRankRound.simps)
  from this [of 18] have "pageRankLoop graph [nid] 20 [(nid, 1)] = Inr [(nid, 3 / 20)]"
    by simp
  then show ?thesis
    using assms(1) by (simp add: calculatePageRank_def PAGERANK_ITERATIONS_def initialRanks_def)
qed

lemma empty_graph: "nodes graph = [] \<Longrightarrow> calculatePageRank graph = Inr []"
  by (simp add: calculatePageRank_def)

lemma loop_stops:
  assumes "pageRankLoop graph ids fuel r = Inr result"
  shows "\<exists>k \<le> fuel. \<exists>trace :: nat \<Rightarrow> (string \<times> real) list.
           trace 0 = r \<and> trace k = result
         \<and> (\<forall>j < k. \<exists>newRanks maxDiff.
               pageRankRound graph (length ids) (trace j) ids [] 0 = Inr (newRanks, maxDiff)
             \<and> \<not> maxDiff < 1 / 10 ^ 6 \<and> trace (Suc j) = commitRanks newRanks (trace j))
         \<and> (k = fuel \<or> (\<exists>newRanks maxDiff.
               pageRankRound graph (length ids) (trace k) ids [] 0 = Inr (newRanks, maxDiff)
             \<and> maxDiff < 1 / 10 ^ 6))"
  using assms
proof (induction fuel arbitrary: r)
  case 0
  then have "result = r" by simp
  then show ?case by (intro exI [of _ 0] conjI exI [of _ "\<lambda>_. r"]) simp_all
next
  case (Suc fuel)
  show ?case
  proof (cases "pageRankRound graph (length ids) r ids [] 0")
    case (Inl e)
    with Suc.prems show ?thesis by simp
  next
    case (Inr p)
    obtain newRanks maxDiff where p: "p = (newRanks, maxDiff)" by (cases p)
    show ?thesis
    proof (cases "maxDiff < PAGERANK_TOLERANCE")
      case True
      with Suc.prems Inr p have "result = r" by simp
      moreover have "maxDiff < 1 / 10 ^ 6" using True by (simp add: PAGERANK_TOLERANCE_def)
      ultimately show ?thesis
        using Inr p
        by (intro exI [of _ 0] conjI exI [of _ "\<lambda>_. r"]) auto
    next
      case False
      with Suc.prems Inr p
      have "pageRankLoop graph ids fuel (commitRanks newRanks r) = Inr result" by simp
      from Suc.IH [OF this]
      obtain k trace where k: "k \<le> fuel" and t0: "trace 0 = commitRanks newRanks r"
        and tk: "trace k = result"
        and steps: "\<forall>j < k. \<exists>newRanks maxDiff.
               pageRankRound graph (length ids) (trace j) ids [] 0 = Inr (newRanks, maxDiff)
             \<and> \<not> maxDiff < 1 / 10 ^ 6 \<and> trace (Suc j) = commitRanks newRanks (trace j)"
        and stop: "k = fuel \<or> (\<exists>newRanks maxDiff.
               pageRankRound graph (length ids) (trace k) ids [] 0 = Inr (newRanks, maxDiff)
             \<and> maxDiff < 1 / 10 ^ 6)"
        by blast
      define trace' where "trace' = (\<lambda>j. case j of 0 \<Rightarrow> r | Suc i \<Rightarrow> trace i)"
      have nf: "\<not> maxDiff < 1 / 10 ^ 6" using False by (simp add: PAGERANK_TOLERANCE_def)
      have steps': "\<forall>j < Suc k. \<exists>newRanks maxDiff.
               pageRankRound graph (length ids) (trace' j) ids [] 0 = Inr (newRanks, maxDiff)
             \<and> \<not> maxDiff < 1 / 10 ^ 6 \<and> trace' (Suc j) = commitRanks newRanks (trace' j)"
      proof (intro allI impI)
        fix j assume "j < Suc k"
        show "\<exists>newRanks maxDiff.
               pageRankRound graph (length ids) (trace' j) ids [] 0 = Inr (newRanks, maxDiff)
             \<and> \<not> maxDiff < 1 / 10 ^ 6 \<and> trace' (Suc j) = commitRanks newRanks (trace' j)"
        proof (cases j)
          case 0
          then show ?thesis using Inr p nf t0 by (simp add: trace'_def)
        next
          case (Suc i)
          with \<open>j < Suc k\<close> have "i < k" by simp
          with steps Suc show ?thesis by (simp add: trace'_def)
        qed
      qed
      have "Suc k \<le> Suc fuel" using k by simp
      moreover have "trace' 0 = r" by (simp add: trace'_def)
      moreover have "trace' (Suc k) = result" using tk by (simp add: trace'_def)
      moreover have "Suc k = Suc fuel \<or> (\<exists>newRanks maxDiff.
               pageRankRound graph (length ids) (trace' (Suc k)) ids [] 0 = Inr (newRanks, maxDiff)
             \<and> maxDiff < 1 / 10 ^ 6)"
        using stop by (simp add: trace'_def)
      ultimately show ?thesis using steps' by blast
    qed
  qed
qed


lemma round_result:
  assumes "pageRankRound graph n ranks ids newRanks maxDiff = Inr (newRanks', maxDiff')"
  shows "map_of newRanks' =
           (\<lambda>nid. if nid \<in> set ids then Some (nodeRank graph n ranks nid) else map_of newRanks nid)
       \<and> maxDiff' = Max (insert maxDiff (nodeChange graph n ranks ` set ids))"
  using assms
proof (induction ids arbitrary: newRanks maxDiff)
  case Nil
  then show ?case by simp
next
  case (Cons nid ids)
  from Cons.prems obtain node where node: "map_of (nodes graph) nid = Some node"
    by (auto split: option.splits)
  from Cons.prems node obtain s where s: "incomingSum graph ranks (incomingRelations node) 0 = Inr s"
    by (auto split: sum.splits)
  have nr: "(1 - PAGERANK_DAMPING) / real n + PAGERANK_DAMPING * s = nodeRank graph n ranks nid"
    by (simp add: nodeRank_def node s PAGERANK_DAMPING_def)
  let ?d = "nodeChange graph n ranks nid"
  have step: "pageRankRound graph n ranks (nid # ids) newRanks maxDiff
          = pageRankRound graph n ranks ids
              (AList.update nid (nodeRank graph n ranks nid) newRanks) (max maxDiff ?d)"
    by (auto simp: node s Let_def nr nodeChange_def max_def)
  have "pageRankRound graph n ranks ids
          (AList.update nid (nodeRank graph n ranks nid) newRanks)
          (max maxDiff ?d) = Inr (newRanks', maxDiff')"
    using Cons.prems unfolding step .
  from Cons.IH [OF this]
  have m: "map_of newRanks' =
           (\<lambda>k. if k \<in> set ids then Some (nodeRank graph n ranks k)
                else map_of (AList.update nid (nodeRank graph n ranks nid) newRanks) k)"
    and d: "maxDiff' = Max (insert (max maxDiff ?d) (nodeChange graph n ranks ` set ids))"
    by simp_all
  have "map_of newRanks' =
           (\<lambda>k. if k \<in> set (nid # ids) then Some (nodeRank graph n ranks k) else map_of newRanks k)"
    unfolding m by (auto simp: update_conv' fun_eq_iff)
  moreover have "maxDiff' = Max (insert maxDiff (nodeChange graph n ranks ` set (nid # ids)))"
  proof -
    have "maxDiff' = Max (insert (max maxDiff ?d) (nodeChange graph n ranks ` set ids))"
      using d by simp
    also have "\<dots> = max (max maxDiff ?d) (Max (insert (max maxDiff ?d) (nodeChange graph n ranks ` set ids)))"
      by (simp add: max_def)
    also have "\<dots> = Max (insert maxDiff (insert ?d (nodeChange graph n ranks ` set ids)))"
      by (cases "set ids = {}") (auto simp: max.assoc max.left_commute)
    finally show ?thesis by simp
  qed
  ultimately show ?case by simp
qed


lemma fold_update_const:
  "map_of (fold (\<lambda>nid rs. AList.update nid c rs) ids acc) nid
     = (if nid \<in> set ids then Some c else map_of acc nid)"
  by (induction ids arbitrary: acc) (auto simp: update_conv')

lemma initialRanks_uniform:
  "map_of (initialRanks ids) nid = (if nid \<in> set ids then Some (1 / real (length ids)) else None)"
  by (simp add: initialRanks_def fold_update_const)

lemma commitRanks_lookup:
  assumes "distinct (map fst newRanks)"
  shows "map_of (commitRanks newRanks ranks) nid
           = (case map_of newRanks nid of Some v \<Rightarrow> Some v | None \<Rightarrow> map_of ranks nid)"
  using assms unfolding commitRanks_def
proof (induction newRanks arbitrary: ranks)
  case Nil
  then show ?case by simp
next
  case (Cons kv newRanks)
  obtain k v where kv: "kv = (k, v)" by (cases kv)
  have d: "distinct (map fst newRanks)" using Cons.prems by simp
  have none: "map_of newRanks k = None"
    using Cons.prems kv by (simp add: map_of_eq_None_iff)
  show ?case
    using Cons.IH [OF d, of "AList.update k v ranks"] none
    by (auto simp: kv update_conv' split: option.splits)
qed

lemma round_distinct:
  assumes "pageRankRound graph n ranks ids newRanks maxDiff = Inr (newRanks', maxDiff')"
    and "distinct (map fst newRanks)"
  shows "distinct (map fst newRanks')"
  using assms
proof (induction ids arbitrary: newRanks maxDiff)
  case Nil
  then show ?case by simp
next
  case (Cons nid ids)
  from Cons.prems(1) obtain node where node: "map_of (nodes graph) nid = Some node"
    by (auto split: option.splits)
  from Cons.prems(1) node obtain s where s: "incomingSum graph ranks (incomingRelations node) 0 = Inr s"
    by (auto split: sum.splits)
  obtain x y where step: "pageRankRound graph n ranks (nid # ids) newRanks maxDiff
          = pageRankRound graph n ranks ids (AList.update nid x newRanks) y"
    by (simp add: node s Let_def)
  have "distinct (map fst (AList.update nid x newRanks))"
    using Cons.prems(2) by (rule distinct_update)
  with Cons.IH [of "AList.update nid x newRanks" y] Cons.prems(1) step
  show ?case by simp
qed

lemma contribution_total:
  assumes "\<forall>rid rel node. map_of (relationships graph) rid = Some rel
             \<longrightarrow> map_of (nodes graph) (sourceId rel) = Some node
             \<longrightarrow> outgoingRelations node \<noteq> []"
  shows "\<exists>c. contribution graph ranks relId = Inr c"
proof (cases "map_of (relationships graph) relId")
  case None
  then show ?thesis by (simp add: contribution_def)
next
  case (Some rel)
  show ?thesis
  proof (cases "map_of (nodes graph) (sourceId rel)")
    case None
    with Some show ?thesis by (simp add: contribution_def)
  next
    case (Some node)
    with \<open>map_of (relationships graph) relId = Some rel\<close> assms
    have "outgoingRelations node \<noteq> []" by blast
    with Some \<open>map_of (relationships graph) relId = Some rel\<close>
    show ?thesis by (simp add: contribution_def Let_def)
  qed
qed

lemma incomingSum_total:
  assumes "\<forall>rid rel node. map_of (relationships graph) rid = Some rel
             \<longrightarrow> map_of (nodes graph) (sourceId rel) = Some node
             \<longrightarrow> outgoingRelations node \<noteq> []"
  shows "\<exists>s. incomingSum graph ranks rels acc = Inr s"
proof (induction rels arbitrary: acc)
  case Nil
  then show ?case by simp
next
  case (Cons relId rels)
  from contribution_total [OF assms, of ranks relId]
  obtain c where "contribution graph ranks relId = Inr c" by blast
  with Cons [of "acc + c"] show ?case by simp
qed

lemma round_total:
  assumes "\<forall>rid rel node. map_of (relationships graph) rid = Some rel
             \<longrightarrow> map_of (nodes graph) (sourceId rel) = Some node
             \<longrightarrow> outgoingRelations node \<noteq> []"
    and "set ids \<subseteq> fst ` set (nodes graph)"
  shows "\<exists>res. pageRankRound graph n ranks ids newRanks maxDiff = Inr res"
  using assms(2)
proof (induction ids arbitrary: newRanks maxDiff)
  case Nil
  then show ?case by simp
next
  case (Cons nid ids)
  from Cons.prems obtain node where node: "map_of (nodes graph) nid = Some node"
    by (cases "map_of (nodes graph) nid") (auto simp: map_of_eq_None_iff)
  from incomingSum_total [OF assms(1), of ranks "incomingRelations node" 0]
  obtain s where s: "incomingSum graph ranks (incomingRelations node) 0 = Inr s" by blast
  have "set ids \<subseteq> fst ` set (nodes graph)" using Cons.prems by simp
  from Cons.IH [OF this] show ?case by (simp add: node s Let_def)
qed

lemma loop_total:
  assumes "\<forall>rid rel node. map_of (relationships graph) rid = Some rel
             \<longrightarrow> map_of (nodes graph) (sourceId rel) = Some node
             \<longrightarrow> outgoingRelations node \<noteq> []"
    and "set ids \<subseteq> fst ` set (nodes graph)"
  shows "\<exists>res. pageRankLoop graph ids fuel ranks = Inr res"
proof (induction fuel arbitrary: ranks)
  case 0
  then show ?case by simp
next
  case (Suc fuel)
  from round_total [OF assms, of "length ids" ranks "[]" 0]
  obtain newRanks maxDiff where
    "pageRankRound graph (length ids) ranks ids [] 0 = Inr (newRanks, maxDiff)" by force
  with Suc [of "commitRanks newRanks ranks"] show ?case by simp
qed

lemma calculatePageRank_total:
  assumes "\<forall>rid rel node. map_of (relationships graph) rid = Some rel
             \<longrightarrow> map_of (nodes graph) (sourceId rel) = Some node
             \<longrightarrow> outgoingRelations node \<noteq> []"
  shows "\<exists>res. calculatePageRank graph = Inr res"
  using loop_total [OF assms, of "map fst (nodes graph)"]
  by (simp add: calculatePageRank_def Let_def)


lemma round_summary:
  assumes "pageRankRound graph n ranks ids [] 0 = Inr (newRanks, maxDiff)"
  shows "maxDiff = Max (insert 0 (nodeChange graph n ranks ` set ids))
       \<and> (\<forall>nid. map_of (commitRanks newRanks ranks) nid
             = (if nid \<in> set ids then Some (nodeRank graph n ranks nid) else map_of ranks nid))"
proof -
  from round_result [OF assms]
  have m: "map_of newRanks = (\<lambda>nid. if nid \<in> set ids then Some (nodeRank graph n ranks nid) else None)"
    and d: "maxDiff = Max (insert 0 (nodeChange graph n ranks ` set ids))"
    by (simp_all cong: if_cong)
  have "distinct (map fst newRanks)" using round_distinct [OF assms] by simp
  from commitRanks_lookup [OF this, of ranks] m d show ?thesis by simp
qed

text \<open>
  Claim C5. On a graph with exactly one node and no relationships \<open>calculatePageRank\<close>
  gives that node the rank 0.15; on a graph without nodes it returns the empty result,
  by the early return before the loop. On a graph in which no relationship comes from a
  node with an empty outgoing list, the computation stays within the real numbers. And
  whenever it does, the result is the ranks after \<open>k\<close> committed rounds, starting from the
  uniform ranks \<open>1 / n\<close>, where every one of these \<open>k\<close> rounds had a maximum per-node change
  of at least \<open>10\<^sup>-\<^sup>6\<close>, and either \<open>k\<close> is 20 or the round after them had a maximum per-node
  change below \<open>10\<^sup>-\<^sup>6\<close>.
\<close>

theorem calculatePageRank_iteration:
  "(nodes graph = [(nid, node)] \<and> relationships graph = []
      \<longrightarrow> calculatePageRank graph = Inr [(nid, 0.15)])
   \<and> (nodes graph = [] \<longrightarrow> calculatePageRank graph = Inr [])
   \<and> ((\<forall>rid rel nd. map_of (relationships graph) rid = Some rel
             \<longrightarrow> map_of (nodes graph) (sourceId rel) = Some nd
             \<longrightarrow> outgoingRelations nd \<noteq> [])
      \<longrightarrow> (\<exists>res. calculatePageRank graph = Inr res))
   \<and> (nodes graph \<noteq> [] \<and> calculatePageRank graph = Inr result \<longrightarrow>
        (let ids = map fst (nodes graph); n = length ids
         in \<exists>k \<le> 20. \<exists>trace :: nat \<Rightarrow> (string \<times> real) list.
              (\<forall>i. map_of (trace 0) i = (if i \<in> set ids then Some (1 / real n) else None))
            \<and> trace k = result
            \<and> (\<forall>j < k.
                  \<not> Max (insert 0 (nodeChange graph n (trace j) ` set ids)) < 1 / 10 ^ 6
                \<and> (\<forall>i. map_of (trace (Suc j)) i
                      = (if i \<in> set ids then Some (nodeRank graph n (trace j) i)
                         else map_of (trace j) i)))
            \<and> (k = 20
               \<or> Max (insert 0 (nodeChange graph n (trace k) ` set ids)) < 1 / 10 ^ 6)))"
proof (intro conjI impI)
  assume "nodes graph = [(nid, node)] \<and> relationships graph = []"
  then show "calculatePageRank graph = Inr [(nid, 0.15)]"
    using single_node [of graph nid node] by simp
next
  assume "nodes graph = []"
  then show "calculatePageRank graph = Inr []" by (rule empty_graph)
next
  assume "\<forall>rid rel nd. map_of (relationships graph) rid = Some rel
             \<longrightarrow> map_of (nodes graph) (sourceId rel) = Some nd
             \<longrightarrow> outgoingRelations nd \<noteq> []"
  then show "\<exists>res. calculatePageRank graph = Inr res" by (rule calculatePageRank_total)
next
  assume a: "nodes graph \<noteq> [] \<and> calculatePageRank graph = Inr result"
  define ids where "ids = map fst (nodes graph)"
  define n where "n = length ids"
  from a have ne: "nodes graph \<noteq> []" and res: "calculatePageRank graph = Inr result"
    by simp_all
  have "pageRankLoop graph ids 20 (initialRanks ids) = Inr result"
    using res ne by (simp add: calculatePageRank_def Let_def ids_def PAGERANK_ITERATIONS_def)
  from loop_stops [OF this]
  obtain k trace where k: "k \<le> 20" and t0: "trace 0 = initialRanks ids"
    and tk: "trace k = result"
    and steps: "\<forall>j < k. \<exists>newRanks maxDiff.
               pageRankRound graph (length ids) (trace j) ids [] 0 = Inr (newRanks, maxDiff)
             \<and> \<not> maxDiff < 1 / 10 ^ 6 \<and> trace (Suc j) = commitRanks newRanks (trace j)"
    and stop: "k = 20 \<or> (\<exists>newRanks maxDiff.
               pageRankRound graph (length ids) (trace k) ids [] 0 = Inr (newRanks, maxDiff)
             \<and> maxDiff < 1 / 10 ^ 6)"
    by blast
  have u: "\<forall>i. map_of (trace 0) i = (if i \<in> set ids then Some (1 / real n) else None)"
    by (simp add: t0 initialRanks_uniform n_def)
  have s: "\<forall>j < k.
                  \<not> Max (insert 0 (nodeChange graph n (trace j) ` set ids)) < 1 / 10 ^ 6
                \<and> (\<forall>i. map_of (trace (Suc j)) i
                      = (if i \<in> set ids then Some (nodeRank graph n (trace j) i)
                         else map_of (trace j) i))"
  proof (intro allI impI)
    fix j assume "j < k"
    with steps obtain newRanks maxDiff where
      r: "pageRankRound graph n (trace j) ids [] 0 = Inr (newRanks, maxDiff)"
      and big: "\<not> maxDiff < 1 / 10 ^ 6"
      and next_ranks: "trace (Suc j) = commitRanks newRanks (trace j)"
      unfolding n_def by blast
    from round_summary [OF r] big next_ranks
    show "\<not> Max (insert 0 (nodeChange graph n (trace j) ` set ids)) < 1 / 10 ^ 6
                \<and> (\<forall>i. map_of (trace (Suc j)) i
                      = (if i \<in> set ids then Some (nodeRank graph n (trace j) i)
                         else map_of (trace j) i))"
      by simp
  qed
  have e: "k = 20 \<or> Max (insert 0 (nodeChange graph n (trace k) ` set ids)) < 1 / 10 ^ 6"
  proof (cases "k = 20")
    case True
    then show ?thesis by simp
  next
    case False
    with stop obtain newRanks maxDiff where
      r: "pageRankRound graph n (trace k) ids [] 0 = Inr (newRanks, maxDiff)"
      and small: "maxDiff < 1 / 10 ^ 6"
      unfolding n_def by blast
    from round_summary [OF r] small show ?thesis by simp
  qed
  have "\<exists>k \<le> 20. \<exists>trace :: nat \<Rightarrow> (string \<times> real) list.
              (\<forall>i. map_of (trace 0) i = (if i \<in> set ids then Some (1 / real n) else None))
            \<and> trace k = result
            \<and> (\<forall>j < k.
                  \<not> Max (insert 0 (nodeChange graph n (trace j) ` set ids)) < 1 / 10 ^ 6
                \<and> (\<forall>i. map_of (trace (Suc j)) i
                      = (if i \<in> set ids then Some (nodeRank graph n (trace j) i)
                         else map_of (trace j) i)))
            \<and> (k = 20
               \<or> Max (insert 0 (nodeChange graph n (trace k) ` set ids)) < 1 / 10 ^ 6)"
    using k u tk s e by blast
  then show "(let ids = map fst (nodes graph); n = length ids
         in \<exists>k \<le> 20. \<exists>trace :: nat \<Rightarrow> (string \<times> real) list.
              (\<forall>i. map_of (trace 0) i = (if i \<in> set ids then Some (1 / real n) else None))
            \<and> trace k = result
            \<and> (\<forall>j < k.
                  \<not> Max (insert 0 (nodeChange graph n (trace j) ` set ids)) < 1 / 10 ^ 6
                \<and> (\<forall>i. map_of (trace (Suc j)) i
                      = (if i \<in> set ids then Some (nodeRank graph n (trace j) i)
                         else map_of (trace j) i)))
            \<and> (k = 20
               \<or> Max (insert 0 (nodeChange graph n (trace k) ` set ids)) < 1 / 10 ^ 6))"
    unfolding Let_def ids_def n_def .
qed

theorem calculatePageRank_iteration_witness:
  "calculatePageRank loneGraph = Inr [(''a'', 0.15)]
   \<and> calculatePageRank \<lparr> nodes = [], relationships = [] \<rparr> = Inr []
   \<and> (\<exists>k \<le> 20. \<exists>trace :: nat \<Rightarrow> (string \<times> real) list.
         trace k = [(''a'', 0.15)]
       \<and> (k = 20 \<or> Max (insert 0 (nodeChange loneGraph 1 (trace k) ` {''a''})) < 1 / 10 ^ 6))"
proof -
  let ?node = "\<lparr> id_node = ''a'', outgoingRelations = [], incomingRelations = [] \<rparr>"
  note inst = calculatePageRank_iteration [of loneGraph "''a''" ?node "[(''a'', 0.15)]"]
  have n: "nodes loneGraph = [(''a'', ?node)] \<and> relationships loneGraph = []"
    by (simp add: loneGraph_def)
  have one: "calculatePageRank loneGraph = Inr [(''a'', 0.15)]"
    using inst [THEN conjunct1] n by (rule mp)
  have none: "calculatePageRank \<lparr> nodes = [], relationships = [] \<rparr> = Inr []"
    using calculatePageRank_iteration [of "\<lparr> nodes = [], relationships = [] \<rparr>", THEN conjunct2,
            THEN conjunct1]
    by simp
  have ne: "nodes loneGraph \<noteq> [] \<and> calculatePageRank loneGraph = Inr [(''a'', 0.15)]"
    using n one by simp
  have ids: "map fst (nodes loneGraph) = [''a'']" by (simp add: loneGraph_def)
  from inst [THEN conjunct2, THEN conjunct2, THEN conjunct2, THEN mp, OF ne]
  obtain k and trace :: "nat \<Rightarrow> (string \<times> real) list" where
    "k \<le> 20" "trace k = [(''a'', 0.15)]"
    "k = 20 \<or> Max (insert 0 (nodeChange loneGraph 1 (trace k) ` {''a''})) < 1 / 10 ^ 6"
    unfolding Let_def ids by auto
  then have "\<exists>k \<le> 20. \<exists>trace :: nat \<Rightarrow> (string \<times> real) list.
         trace k = [(''a'', 0.15)]
       \<and> (k = 20 \<or> Max (insert 0 (nodeChange loneGraph 1 (trace k) ` {''a''})) < 1 / 10 ^ 6)"
    by blast
  with one none show ?thesis by (intro conjI)
qed

end
